theory Spec2Isabelle
  imports Complex_Main "HOL-Library.Log_Nat"
begin

section \<open>Data model\<close>

text \<open>
  The rows of the tables \<open>Wishlist\<close>, \<open>Item\<close> and \<open>Contribution\<close>, with the columns
  the reservation, contribution, presence and read paths use. Display columns (title,
  url, imageUrl, currency, story, stolenFrom, isFulfilled) take no part in any of these
  paths and are left out. Amounts are \<open>DECIMAL(65,30)\<close> columns: a stored amount is a
  rational with at most 30 decimal places, below \<open>10 ^ 35\<close> in absolute value. The rounding
  of the columns and the \<open>Number(...)\<close> conversions of the routes are modelled in the
  section on amounts.
\<close>

record wishlist =
  wl_id :: string
  ownerId :: string
  isPublic :: bool

record item =
  item_id :: string
  wishlistId :: string
  price :: "rat option"
  isReserved :: bool
  reservedBy :: "string option"
  collectedAmount :: rat
  hypeCount :: int
  createdAt :: nat

record contribution =
  contrib_id :: string
  c_itemId :: string
  c_userId :: "string option"
  contributorName :: string
  amount :: rat
  message :: "string option"
  c_createdAt :: nat

record db =
  wishlists :: "wishlist list"
  items :: "item list"
  contributions :: "contribution list"

text \<open>The decoded JWT payload that \<open>optionalAuth\<close> stores in \<open>req.user\<close>.\<close>

record userPayload =
  user_id :: string
  email :: string

text \<open>
  Errors thrown by the services and routes: \<open>new Error(message)\<close>, the schema library's
  validation error, a property read on \<open>null\<close>, and the persistence layer's
  "record not found", "unique constraint" and "numeric field overflow" failures.
\<close>

datatype jsError =
  Error string | ZodError | TypeError | RecordNotFound | UniqueConstraint | NumericOverflow

section \<open>Persistence primitives\<close>

definition findUnique_item :: "string \<Rightarrow> item list \<Rightarrow> item option" where
  "findUnique_item k tbl = find (\<lambda>i. item_id i = k) tbl"

definition findUnique_wishlist :: "string \<Rightarrow> wishlist list \<Rightarrow> wishlist option" where
  "findUnique_wishlist k tbl = find (\<lambda>w. wl_id w = k) tbl"

text \<open>\<open>item.findUnique({ where: { id }, include: { wishlist: true } })\<close>\<close>

definition findUnique_item_include :: "string \<Rightarrow> db \<Rightarrow> (item \<times> wishlist option) option" where
  "findUnique_item_include k d =
     (case findUnique_item k (items d) of
        None \<Rightarrow> None
      | Some i \<Rightarrow> Some (i, findUnique_wishlist (wishlistId i) (wishlists d)))"

text \<open>
  \<open>item.updateMany({ where, data })\<close>: one atomic statement that rewrites every row
  satisfying \<open>where\<close> and reports how many rows it rewrote.
\<close>

definition updateMany :: "(item \<Rightarrow> bool) \<Rightarrow> (item \<Rightarrow> item) \<Rightarrow> item list \<Rightarrow> item list \<times> nat" where
  "updateMany wh upd tbl = (map (\<lambda>i. if wh i then upd i else i) tbl, length (filter wh tbl))"

text \<open>\<open>item.update({ where: { id }, data })\<close>: fails when no row has the id.\<close>

definition update_item :: "string \<Rightarrow> (item \<Rightarrow> item) \<Rightarrow> item list \<Rightarrow> jsError + (item \<times> item list)" where
  "update_item k upd tbl =
     (case findUnique_item k tbl of
        None \<Rightarrow> Inl RecordNotFound
      | Some i \<Rightarrow> Inr (upd i, map (\<lambda>j. if item_id j = k then upd j else j) tbl))"

text \<open>The primary keys of the tables.\<close>

definition pk_items :: "db \<Rightarrow> bool" where
  "pk_items d = distinct (map item_id (items d))"

section \<open>Amounts: decimal columns and JavaScript numbers\<close>

text \<open>
  A number written to a \<open>DECIMAL(65,30)\<close> column is rounded to 30 decimal places, half
  away from zero, and refused when the rounded value needs more than 35 digits before
  the point. A number of a request body is taken as the decimal JavaScript prints for
  it, which is what the store receives.
\<close>

definition round30 :: "rat \<Rightarrow> rat" where
  "round30 x =
     (if 0 \<le> x then of_int \<lfloor>x * 10 ^ 30 + 1 / 2\<rfloor> / 10 ^ 30
      else - (of_int \<lfloor>- x * 10 ^ 30 + 1 / 2\<rfloor> / 10 ^ 30))"

definition store_decimal :: "rat \<Rightarrow> rat option" where
  "store_decimal x = (let r = round30 x in if 10 ^ 35 \<le> \<bar>r\<bar> then None else Some r)"

text \<open>
  \<open>Number(x)\<close> of a stored decimal is the double nearest to it, ties to the even
  significand: 53 significant bits at the binary exponent of \<open>x\<close>, which is at least
  \<open>-1022\<close>. Stored decimals are far below the largest double, so the conversion never
  overflows.
\<close>

definition round_half_even :: "rat \<Rightarrow> int" where
  "round_half_even r =
     (let f = \<lfloor>r\<rfloor>
      in if r - of_int f < 1 / 2 then f
         else if 1 / 2 < r - of_int f then f + 1
         else if even f then f else f + 1)"

definition floor_log2 :: "rat \<Rightarrow> int" where
  "floor_log2 x =
     (case quotient_of x of (a, b) \<Rightarrow>
        let k = bitlen a - bitlen b in if 2 powi k \<le> x then k else k - 1)"

definition nearest_double :: "rat \<Rightarrow> rat" where
  "nearest_double x =
     (let e = max (floor_log2 x) (- 1022); u = 2 powi (e - 52)
      in of_int (round_half_even (x / u)) * u)"

definition to_double :: "rat \<Rightarrow> rat" where
  "to_double x = (if x = 0 then 0 else if 0 < x then nearest_double x else - nearest_double (- x))"

text \<open>
  \<open>item.update({ where: { id }, data: { collectedAmount: { increment: a } } })\<close>: the
  new total is written to the decimal column.
\<close>

definition increment_collected :: "string \<Rightarrow> rat \<Rightarrow> item list \<Rightarrow> jsError + (item \<times> item list)" where
  "increment_collected k a tbl =
     (case findUnique_item k tbl of
        None \<Rightarrow> Inl RecordNotFound
      | Some i \<Rightarrow>
          (case store_decimal (collectedAmount i + a) of
             None \<Rightarrow> Inl NumericOverflow
           | Some c \<Rightarrow>
               Inr (i\<lparr>collectedAmount := c\<rparr>,
                    map (\<lambda>j. if item_id j = k
                             then j\<lparr>collectedAmount := round30 (collectedAmount j + a)\<rparr> else j) tbl)))"

section \<open>The socket server\<close>

text \<open>
  The connected sockets and the adapter's room membership, as pairs (socket id, room).
  A room exists while it has a member.
\<close>

record io_state =
  sockets :: "string list"
  memberships :: "(string \<times> string) list"

datatype payload =
    ITEM_ADDED string item
  | ITEM_RESERVED string string bool "string option"
  | ITEM_UNRESERVED string string bool "string option"
  | ITEM_DELETED string string
  | CONTRIBUTION_ADDED string string rat bool
  | HypePayload string int
  | ViewersPayload int

text \<open>One \<open>emit\<close> call: the sockets it reaches, the event name, the payload.\<close>

type_synonym emission = "string list \<times> string \<times> payload"

definition rooms_get :: "io_state \<Rightarrow> string \<Rightarrow> string list option" where
  "rooms_get s room =
     (let m = remdups (map fst (filter (\<lambda>p. snd p = room) (memberships s)))
      in if m = [] then None else Some m)"

definition room_members :: "io_state \<Rightarrow> string \<Rightarrow> string list" where
  "room_members s room = (case rooms_get s room of None \<Rightarrow> [] | Some m \<Rightarrow> m)"

text \<open>\<open>io.emit(ev, p)\<close> reaches every connected socket.\<close>

definition emit_all :: "io_state \<Rightarrow> string \<Rightarrow> payload \<Rightarrow> emission" where
  "emit_all s ev p = (sockets s, ev, p)"

text \<open>\<open>io.to(room).emit(ev, p)\<close> reaches the members of the room.\<close>

definition emit_to :: "io_state \<Rightarrow> string \<Rightarrow> string \<Rightarrow> payload \<Rightarrow> emission" where
  "emit_to s room ev p = (room_members s room, ev, p)"

section \<open>ItemService.reserveItem and ItemService.unreserveItem\<close>

text \<open>
  A service call returns its result or the error it threw, the events it emitted, and
  the store as the call left it (also when it threw: the service opens no transaction).
\<close>

definition reserveItem ::
  "string \<Rightarrow> string \<Rightarrow> string option \<Rightarrow> io_state option \<Rightarrow> db \<Rightarrow> (jsError + item) \<times> emission list \<times> db" where
  "reserveItem itemId reserverIdentifier reserverId io d =
     (case findUnique_item_include itemId d of
        None \<Rightarrow> (Inl (Error ''Item not found''), [], d)
      | Some (it, None) \<Rightarrow> (Inl TypeError, [], d)
      | Some (it, Some wl) \<Rightarrow>
          if reserverId = Some (ownerId wl) then (Inl (Error ''Cannot reserve your own items''), [], d)
          else
            let (tbl, count) =
                  updateMany (\<lambda>i. item_id i = itemId \<and> isReserved i = False)
                    (\<lambda>i. i\<lparr>isReserved := True, reservedBy := Some reserverIdentifier\<rparr>) (items d);
                d' = d\<lparr>items := tbl\<rparr>
            in if count = 0 then (Inl (Error ''Item is already reserved''), [], d')
               else
                 (case findUnique_item itemId (items d') of
                    None \<Rightarrow> (Inl (Error ''Item not found''), [], d')
                  | Some updated \<Rightarrow>
                      (Inr updated,
                       (case io of
                          None \<Rightarrow> []
                        | Some s \<Rightarrow>
                            [emit_all s (''wishlist:'' @ wishlistId it)
                               (ITEM_RESERVED (wishlistId it) itemId True (Some reserverIdentifier))]),
                       d')))"

text \<open>
  \<open>requesterIdentifier\<close> is \<open>req.user?.email || nickname\<close>, possibly \<open>undefined\<close>;
  \<open>!requesterIdentifier\<close> holds for \<open>undefined\<close> and for the empty string.
\<close>

definition falsy :: "string option \<Rightarrow> bool" where
  "falsy v = (case v of None \<Rightarrow> True | Some s \<Rightarrow> s = [])"

definition unreserveItem ::
  "string \<Rightarrow> string option \<Rightarrow> io_state option \<Rightarrow> db \<Rightarrow> (jsError + item) \<times> emission list \<times> db" where
  "unreserveItem itemId requesterIdentifier io d =
     (case findUnique_item_include itemId d of
        None \<Rightarrow> (Inl (Error ''Item not found''), [], d)
      | Some (it, _) \<Rightarrow>
          if falsy requesterIdentifier
          then (Inl (Error ''Only the person who reserved can unreserve''), [], d)
          else
            let (tbl, count) =
                  updateMany
                    (\<lambda>i. item_id i = itemId \<and> reservedBy i = requesterIdentifier \<and> isReserved i = True)
                    (\<lambda>i. i\<lparr>isReserved := False, reservedBy := None\<rparr>) (items d);
                d' = d\<lparr>items := tbl\<rparr>
            in if count = 0
               then (Inl (Error ''Only the person who reserved can unreserve''), [], d')
               else
                 (case findUnique_item itemId (items d') of
                    None \<Rightarrow> (Inl (Error ''Item not found''), [], d')
                  | Some updated \<Rightarrow>
                      (Inr updated,
                       (case io of
                          None \<Rightarrow> []
                        | Some s \<Rightarrow>
                            [emit_all s (''wishlist:'' @ wishlistId it)
                               (ITEM_UNRESERVED (wishlistId it) itemId False None)]),
                       d')))"

section \<open>The item routes\<close>

text \<open>
  A request: \<open>req.user\<close> as \<open>optionalAuth\<close> left it, the \<open>:id\<close> parameter and the
  \<open>nickname\<close> of the body.
\<close>

record request =
  user :: "userPayload option"
  param_id :: string
  nickname :: "string option"

datatype body = ErrorJson jsError | MessageJson string | ContributionJson contribution | HypeJson int

record response =
  status :: nat
  json :: body

text \<open>\<open>req.user?.email || nickname\<close>\<close>

definition identity_of :: "userPayload option \<Rightarrow> string option \<Rightarrow> string option" where
  "identity_of u nick =
     (case u of
        None \<Rightarrow> nick
      | Some p \<Rightarrow> if email p = [] then nick else Some (email p))"

definition reserve_route :: "request \<Rightarrow> io_state \<Rightarrow> db \<Rightarrow> response \<times> emission list \<times> db" where
  "reserve_route req io d =
     (let reservedBy' = identity_of (user req) (nickname req)
      in case reservedBy' of
           None \<Rightarrow> (\<lparr>status = 400, json = ErrorJson (Error ''Please provide a nickname'')\<rparr>, [], d)
         | Some label \<Rightarrow>
             if label = [] then (\<lparr>status = 400, json = ErrorJson (Error ''Please provide a nickname'')\<rparr>, [], d)
             else
               (case reserveItem (param_id req) label (map_option user_id (user req)) (Some io) d of
                  (Inr _, out, d') \<Rightarrow> (\<lparr>status = 200, json = MessageJson ''Item reserved!''\<rparr>, out, d')
                | (Inl e, out, d') \<Rightarrow>
                    (if e = Error ''Item not found'' then \<lparr>status = 404, json = ErrorJson e\<rparr>
                     else if e = Error ''Cannot reserve your own items'' then \<lparr>status = 403, json = ErrorJson e\<rparr>
                     else \<lparr>status = 400,
                           json = ErrorJson (if e = Error [] then Error ''Failed to reserve item'' else e)\<rparr>,
                     out, d')))"

text \<open>\<open>error.message.includes('Only the person')\<close>\<close>

fun str_includes :: "string \<Rightarrow> string \<Rightarrow> bool" where
  "str_includes [] sub = (sub = [])"
| "str_includes (c # cs) sub = (take (length sub) (c # cs) = sub \<or> str_includes cs sub)"

definition unreserve_route :: "request \<Rightarrow> io_state \<Rightarrow> db \<Rightarrow> response \<times> emission list \<times> db" where
  "unreserve_route req io d =
     (case unreserveItem (param_id req) (identity_of (user req) (nickname req)) (Some io) d of
        (Inr _, out, d') \<Rightarrow> (\<lparr>status = 200, json = MessageJson ''Item unreserved''\<rparr>, out, d')
      | (Inl e, out, d') \<Rightarrow>
          (if e = Error ''Item not found'' then \<lparr>status = 404, json = ErrorJson e\<rparr>
           else if (case e of Error m \<Rightarrow> str_includes m ''Only the person'' | _ \<Rightarrow> False)
           then \<lparr>status = 403, json = ErrorJson e\<rparr>
           else \<lparr>status = 500, json = ErrorJson (Error ''Failed to unreserve item'')\<rparr>,
           out, d'))"

section \<open>ItemService.createItem, deleteItem and hypeItem\<close>

text \<open>
  The fields of \<open>CreateItemDTO\<close> that reach the modelled columns. The new row's id and
  creation time are chosen by the store, and are arguments here; the other columns take
  the defaults of the schema (\<open>isReserved\<close> false, \<open>reservedBy\<close> null,
  \<open>collectedAmount\<close> 0, \<open>hypeCount\<close> 0). \<open>data.price ? Number(data.price) : undefined\<close>
  drops a price of zero; any other price is written to its decimal column.
\<close>

record createItemDTO =
  dto_wishlistId :: string
  dto_price :: "rat option"

definition createItem ::
  "string \<Rightarrow> createItemDTO \<Rightarrow> io_state option \<Rightarrow> string \<Rightarrow> nat \<Rightarrow> db \<Rightarrow> (jsError + item) \<times> emission list \<times> db" where
  "createItem userId dto io newId now d =
     (case findUnique_wishlist (dto_wishlistId dto) (wishlists d) of
        None \<Rightarrow> (Inl (Error ''Not authorized to add to this wishlist''), [], d)
      | Some wl \<Rightarrow>
          if ownerId wl \<noteq> userId then (Inl (Error ''Not authorized to add to this wishlist''), [], d)
          else
            (case (case dto_price dto of
                     None \<Rightarrow> Some None
                   | Some p \<Rightarrow> if p = 0 then Some None else map_option Some (store_decimal p)) of
               None \<Rightarrow> (Inl NumericOverflow, [], d)
             | Some price' \<Rightarrow>
                 if newId \<in> set (map item_id (items d)) then (Inl UniqueConstraint, [], d)
                 else
                   let it = \<lparr>item_id = newId, wishlistId = dto_wishlistId dto, price = price',
                             isReserved = False, reservedBy = None, collectedAmount = 0,
                             hypeCount = 0, createdAt = now\<rparr>
                   in (Inr it,
                       (case io of
                          None \<Rightarrow> []
                        | Some s \<Rightarrow>
                            [emit_all s (''wishlist:'' @ dto_wishlistId dto)
                               (ITEM_ADDED (dto_wishlistId dto) it)]),
                       d\<lparr>items := items d @ [it]\<rparr>)))"

text \<open>Deleting an item deletes its contributions (\<open>ON DELETE CASCADE\<close>).\<close>

definition deleteItem ::
  "string \<Rightarrow> string \<Rightarrow> io_state option \<Rightarrow> db \<Rightarrow> (jsError + unit) \<times> emission list \<times> db" where
  "deleteItem itemId userId io d =
     (case findUnique_item_include itemId d of
        None \<Rightarrow> (Inl (Error ''Not authorized to delete this item''), [], d)
      | Some (it, None) \<Rightarrow> (Inl TypeError, [], d)
      | Some (it, Some wl) \<Rightarrow>
          if ownerId wl \<noteq> userId then (Inl (Error ''Not authorized to delete this item''), [], d)
          else
            (Inr (),
             (case io of
                None \<Rightarrow> []
              | Some s \<Rightarrow>
                  [emit_all s (''wishlist:'' @ wishlistId it) (ITEM_DELETED (wishlistId it) itemId)]),
             d\<lparr>items := filter (\<lambda>i. item_id i \<noteq> itemId) (items d),
               contributions := filter (\<lambda>c. c_itemId c \<noteq> itemId) (contributions d)\<rparr>))"

definition hypeItem ::
  "string \<Rightarrow> io_state option \<Rightarrow> db \<Rightarrow> (jsError + item) \<times> emission list \<times> db" where
  "hypeItem itemId io d =
     (case update_item itemId (\<lambda>i. i\<lparr>hypeCount := hypeCount i + 1\<rparr>) (items d) of
        Inl e \<Rightarrow> (Inl e, [], d)
      | Inr (it, tbl) \<Rightarrow>
          (Inr it,
           (case io of
              None \<Rightarrow> []
            | Some s \<Rightarrow>
                [emit_to s (''wishlist:'' @ wishlistId it) ''hype'' (HypePayload itemId (hypeCount it))]),
           d\<lparr>items := tbl\<rparr>))"

definition hype_route :: "request \<Rightarrow> io_state \<Rightarrow> db \<Rightarrow> response \<times> emission list \<times> db" where
  "hype_route req io d =
     (case hypeItem (param_id req) (Some io) d of
        (Inr it, out, d') \<Rightarrow> (\<lparr>status = 200, json = HypeJson (hypeCount it)\<rparr>, out, d')
      | (Inl e, out, d') \<Rightarrow>
          (\<lparr>status = 500, json = ErrorJson (Error ''Failed to hype item'')\<rparr>, out, d'))"

section \<open>The contribution route\<close>

text \<open>
  The request body. \<open>contributionSchema\<close> asks for a UUID \<open>itemId\<close> and a positive
  \<open>amount\<close> (a JavaScript number, taken as the decimal it prints as); \<open>message\<close> and
  \<open>nickname\<close> are optional strings. The UUID test is the 8-4-4-4-12 pattern of
  hexadecimal digits.
\<close>

record contribution_body =
  b_itemId :: string
  b_amount :: rat
  b_message :: "string option"
  b_nickname :: "string option"

record contribution_request =
  c_user :: "userPayload option"
  c_body :: contribution_body

definition is_hex :: "char \<Rightarrow> bool" where
  "is_hex c = (c \<in> set ''0123456789abcdefABCDEF'')"

definition is_uuid :: "string \<Rightarrow> bool" where
  "is_uuid s =
     (length s = 36
      \<and> list_all is_hex (take 8 s) \<and> s ! 8 = CHR ''-''
      \<and> list_all is_hex (take 4 (drop 9 s)) \<and> s ! 13 = CHR ''-''
      \<and> list_all is_hex (take 4 (drop 14 s)) \<and> s ! 18 = CHR ''-''
      \<and> list_all is_hex (take 4 (drop 19 s)) \<and> s ! 23 = CHR ''-''
      \<and> list_all is_hex (drop 24 s))"

definition contributionSchema_ok :: "contribution_body \<Rightarrow> bool" where
  "contributionSchema_ok b = (is_uuid (b_itemId b) \<and> 0 < b_amount b)"

record contribution_result =
  r_contribution :: contribution
  r_wishlistId :: string
  r_itemId :: string
  newCollected :: rat
  isFullyFunded :: bool

text \<open>
  \<open>prisma.$transaction(body)\<close>: the writes of a body that throws are rolled back.
\<close>

definition transaction :: "(db \<Rightarrow> (jsError + 'a) \<times> db) \<Rightarrow> db \<Rightarrow> (jsError + 'a) \<times> db" where
  "transaction body d =
     (case body d of
        (Inl e, _) \<Rightarrow> (Inl e, d)
      | (Inr r, d') \<Rightarrow> (Inr r, d'))"

text \<open>
  The body of the transaction. The new contribution's id and creation time are chosen
  by the store; its amount and the new total are written to decimal columns.
  \<open>updatedItem.price ? ... : false\<close> tests a decimal object or \<open>null\<close>, so it asks
  whether the price is set; the comparison is one of JavaScript numbers.
\<close>

definition contribute_body ::
  "contribution_request \<Rightarrow> string \<Rightarrow> string \<Rightarrow> nat \<Rightarrow> db \<Rightarrow> (jsError + contribution_result) \<times> db" where
  "contribute_body req contributorName' newId now d =
     (case findUnique_item_include (b_itemId (c_body req)) d of
        None \<Rightarrow> (Inl (Error ''Item not found''), d)
      | Some (it, None) \<Rightarrow> (Inl TypeError, d)
      | Some (it, Some wl) \<Rightarrow>
          if map_option user_id (c_user req) = Some (ownerId wl)
          then (Inl (Error ''Cannot contribute to your own items''), d)
          else if isReserved it then (Inl (Error ''Item is already reserved/fully funded''), d)
          else
            (case store_decimal (b_amount (c_body req)) of
               None \<Rightarrow> (Inl NumericOverflow, d)
             | Some amount' \<Rightarrow>
                 if newId \<in> set (map contrib_id (contributions d)) then (Inl UniqueConstraint, d)
                 else
                   let c = \<lparr>contrib_id = newId, c_itemId = b_itemId (c_body req),
                            c_userId = (case c_user req of
                                          None \<Rightarrow> None
                                        | Some u \<Rightarrow> if user_id u = [] then None else Some (user_id u)),
                            contributorName = contributorName',
                            amount = amount',
                            message = b_message (c_body req),
                            c_createdAt = now\<rparr>;
                       d1 = d\<lparr>contributions := contributions d @ [c]\<rparr>
                   in case increment_collected (item_id it) (b_amount (c_body req)) (items d1) of
                        Inl e \<Rightarrow> (Inl e, d1)
                      | Inr (updatedItem, tbl) \<Rightarrow>
                          let d2 = d1\<lparr>items := tbl\<rparr>;
                              newCollected' = to_double (collectedAmount updatedItem);
                              isFullyFunded' = (case price updatedItem of
                                                  None \<Rightarrow> False
                                                | Some p \<Rightarrow> to_double p \<le> newCollected');
                              r = \<lparr>r_contribution = c, r_wishlistId = wishlistId it,
                                   r_itemId = item_id it,
                                   newCollected = newCollected', isFullyFunded = isFullyFunded'\<rparr>
                          in if isFullyFunded' \<and> \<not> isReserved updatedItem
                             then (case update_item (item_id it)
                                          (\<lambda>i. i\<lparr>isReserved := True,
                                                  reservedBy := Some ''Group contribution''\<rparr>)
                                          (items d2) of
                                     Inl e \<Rightarrow> (Inl e, d2)
                                   | Inr (_, tbl') \<Rightarrow> (Inr r, d2\<lparr>items := tbl'\<rparr>))
                             else (Inr r, d2)))"

definition contribution_route ::
  "contribution_request \<Rightarrow> io_state \<Rightarrow> string \<Rightarrow> nat \<Rightarrow> db \<Rightarrow> response \<times> emission list \<times> db" where
  "contribution_route req io newId now d =
     (if \<not> contributionSchema_ok (c_body req) then (\<lparr>status = 400, json = ErrorJson ZodError\<rparr>, [], d)
      else
        let contributorName' = identity_of (c_user req) (b_nickname (c_body req))
        in case contributorName' of
             None \<Rightarrow> (\<lparr>status = 400, json = ErrorJson (Error ''Please provide a nickname'')\<rparr>, [], d)
           | Some name \<Rightarrow>
               if name = [] then (\<lparr>status = 400, json = ErrorJson (Error ''Please provide a nickname'')\<rparr>, [], d)
               else
                 (case transaction (contribute_body req name newId now) d of
                    (Inr r, d') \<Rightarrow>
                      (\<lparr>status = 200, json = ContributionJson (r_contribution r)\<rparr>,
                       [emit_to io (''wishlist:'' @ r_wishlistId r) (''wishlist:'' @ r_wishlistId r)
                          (CONTRIBUTION_ADDED (r_wishlistId r) (r_itemId r) (newCollected r) (isFullyFunded r))],
                       d')
                  | (Inl e, d') \<Rightarrow>
                      (if e = Error ''Item not found'' then \<lparr>status = 404, json = ErrorJson e\<rparr>
                       else if e = Error ''Cannot contribute to your own items''
                       then \<lparr>status = 403, json = ErrorJson e\<rparr>
                       else if e = Error ''Item is already reserved/fully funded''
                       then \<lparr>status = 400, json = ErrorJson e\<rparr>
                       else \<lparr>status = 400, json = ErrorJson e\<rparr>,
                       [], d')))"

section \<open>Reading a wishlist: spoiler protection\<close>

text \<open>
  The query of \<open>GET /:id\<close> returns the wishlist with its items, newest first, each
  with the selected columns of its contributions (no \<open>userId\<close>).
\<close>

record contribution_view =
  cv_id :: string
  cv_amount :: rat
  cv_contributorName :: string
  cv_message :: "string option"
  cv_createdAt :: nat

record item_view = item +
  v_contributions :: "contribution_view list"

record wishlist_view = wishlist +
  v_items :: "item_view list"
  isOwner :: bool

definition select_contribution :: "contribution \<Rightarrow> contribution_view" where
  "select_contribution c =
     \<lparr>cv_id = contrib_id c, cv_amount = amount c, cv_contributorName = contributorName c,
      cv_message = message c, cv_createdAt = c_createdAt c\<rparr>"

definition include_contributions :: "db \<Rightarrow> item \<Rightarrow> item_view" where
  "include_contributions d i =
     item.extend i
       \<lparr>v_contributions =
          map select_contribution (filter (\<lambda>c. c_itemId c = item_id i) (contributions d))\<rparr>"

definition wishlist_items :: "db \<Rightarrow> string \<Rightarrow> item_view list" where
  "wishlist_items d wid =
     map (include_contributions d)
       (rev (sort_key createdAt (filter (\<lambda>i. wishlistId i = wid) (items d))))"

text \<open>The body of the \<open>forEach\<close> that hides reservation and contribution data.\<close>

definition spoiler_protect :: "item_view \<Rightarrow> item_view" where
  "spoiler_protect iv =
     iv\<lparr>isReserved := False, reservedBy := None, v_contributions := [], collectedAmount := 0\<rparr>"

definition get_wishlist :: "userPayload option \<Rightarrow> string \<Rightarrow> db \<Rightarrow> (nat \<times> string) + wishlist_view" where
  "get_wishlist u wid d =
     (case findUnique_wishlist wid (wishlists d) of
        None \<Rightarrow> Inl (404, ''WISHLIST_NOT_FOUND'')
      | Some wl \<Rightarrow>
          let isOwner' = (map_option user_id u = Some (ownerId wl))
          in if \<not> isPublic wl \<and> \<not> isOwner' then Inl (404, ''WISHLIST_NOT_FOUND'')
             else
               Inr (wishlist.extend wl
                      \<lparr>v_items = (if isOwner' then map spoiler_protect (wishlist_items d (wl_id wl))
                                  else wishlist_items d (wl_id wl)),
                       isOwner = isOwner'\<rparr>))"

section \<open>Presence: the connection handlers\<close>

definition socket_rooms :: "io_state \<Rightarrow> string \<Rightarrow> string list" where
  "socket_rooms s k = remdups (map snd (filter (\<lambda>p. fst p = k) (memberships s)))"

definition socket_join :: "string \<Rightarrow> string \<Rightarrow> io_state \<Rightarrow> io_state" where
  "socket_join k room s =
     s\<lparr>memberships :=
         (if (k, room) \<in> set (memberships s) then memberships s else memberships s @ [(k, room)])\<rparr>"

definition socket_leave :: "string \<Rightarrow> string \<Rightarrow> io_state \<Rightarrow> io_state" where
  "socket_leave k room s = s\<lparr>memberships := removeAll (k, room) (memberships s)\<rparr>"

text \<open>A new connection; every socket is a member of the room named by its own id.\<close>

definition connection :: "string \<Rightarrow> io_state \<Rightarrow> io_state" where
  "connection k s =
     socket_join k k (s\<lparr>sockets := (if k \<in> set (sockets s) then sockets s else sockets s @ [k])\<rparr>)"

definition startsWith :: "string \<Rightarrow> string \<Rightarrow> bool" where
  "startsWith s p = (take (length p) s = p)"

text \<open>\<open>s.replace(pat, rep)\<close> with a string pattern replaces its first occurrence.\<close>

fun replace_first :: "string \<Rightarrow> string \<Rightarrow> string \<Rightarrow> string" where
  "replace_first [] pat rep = (if pat = [] then rep else [])"
| "replace_first (c # cs) pat rep =
     (if take (length pat) (c # cs) = pat then rep @ drop (length pat) (c # cs)
      else c # replace_first cs pat rep)"

definition join_wishlist :: "string \<Rightarrow> string \<Rightarrow> io_state \<Rightarrow> emission list \<times> io_state" where
  "join_wishlist k wishlistId' s =
     (let s' = socket_join k (''wishlist:'' @ wishlistId') s;
          room = rooms_get s' (''wishlist:'' @ wishlistId');
          count = (case room of None \<Rightarrow> 1 | Some m \<Rightarrow> int (length m))
      in ([emit_to s' (''wishlist:'' @ wishlistId') (''viewers:'' @ wishlistId') (ViewersPayload count)], s'))"

definition leave_wishlist :: "string \<Rightarrow> string \<Rightarrow> io_state \<Rightarrow> emission list \<times> io_state" where
  "leave_wishlist k wishlistId' s =
     (let s' = socket_leave k (''wishlist:'' @ wishlistId') s;
          room = rooms_get s' (''wishlist:'' @ wishlistId');
          count = (case room of None \<Rightarrow> 0 | Some m \<Rightarrow> int (length m))
      in ([emit_to s' (''wishlist:'' @ wishlistId') (''viewers:'' @ wishlistId') (ViewersPayload count)], s'))"

text \<open>The \<open>disconnecting\<close> handler runs while the socket is still in its rooms.\<close>

definition disconnecting :: "string \<Rightarrow> io_state \<Rightarrow> emission list" where
  "disconnecting k s =
     concat (map (\<lambda>room.
        if startsWith room ''wishlist:''
        then let wishlistId' = replace_first room ''wishlist:'' [];
                 roomSet = rooms_get s room;
                 count = (case roomSet of None \<Rightarrow> 0 | Some m \<Rightarrow> int (length m) - 1)
             in [emit_to s room (''viewers:'' @ wishlistId') (ViewersPayload count)]
        else []) (socket_rooms s k))"

text \<open>A disconnect: the handler's emissions, then the socket leaves every room.\<close>

definition disconnect :: "string \<Rightarrow> io_state \<Rightarrow> emission list \<times> io_state" where
  "disconnect k s =
     (disconnecting k s,
      s\<lparr>sockets := removeAll k (sockets s),
        memberships := filter (\<lambda>p. fst p \<noteq> k) (memberships s)\<rparr>)"

datatype presence_op = Connect string | Join string string | Leave string string | Disconnect string

fun presence_step :: "presence_op \<Rightarrow> io_state \<Rightarrow> emission list \<times> io_state" where
  "presence_step (Connect k) s = ([], connection k s)"
| "presence_step (Join k w) s = join_wishlist k w s"
| "presence_step (Leave k w) s = leave_wishlist k w s"
| "presence_step (Disconnect k) s = disconnect k s"

fun presence_run :: "presence_op list \<Rightarrow> io_state \<Rightarrow> emission list \<times> io_state" where
  "presence_run [] s = ([], s)"
| "presence_run (x # xs) s =
     (case presence_step x s of (out, s') \<Rightarrow>
        (case presence_run xs s' of (out', s'') \<Rightarrow> (out @ out', s'')))"

text \<open>The counts carried by the presence events of a list of emissions, in order.\<close>

fun viewer_counts :: "emission list \<Rightarrow> int list" where
  "viewer_counts [] = []"
| "viewer_counts ((_, _, ViewersPayload c) # es) = c # viewer_counts es"
| "viewer_counts (_ # es) = viewer_counts es"

section \<open>Sequences of mutation requests\<close>

datatype op =
    Reserve request
  | Unreserve request
  | Contribute contribution_request string nat
  | Hype request

fun step :: "io_state \<Rightarrow> op \<Rightarrow> db \<Rightarrow> response \<times> emission list \<times> db" where
  "step io (Reserve req) d = reserve_route req io d"
| "step io (Unreserve req) d = unreserve_route req io d"
| "step io (Contribute req newId now) d = contribution_route req io newId now d"
| "step io (Hype req) d = hype_route req io d"

definition db_after :: "io_state \<Rightarrow> op \<Rightarrow> db \<Rightarrow> db" where
  "db_after io x d = snd (snd (step io x d))"

text \<open>
  A request performs the funding transition of item \<open>k\<close> when it is a contribution and
  the item goes from unreserved to reserved.
\<close>

definition funding_transition :: "io_state \<Rightarrow> string \<Rightarrow> op \<Rightarrow> db \<Rightarrow> bool" where
  "funding_transition io k x d =
     (case x of
        Contribute req newId now \<Rightarrow>
          (case (findUnique_item k (items d), findUnique_item k (items (db_after io x d))) of
             (Some a, Some b) \<Rightarrow> \<not> isReserved a \<and> isReserved b
           | _ \<Rightarrow> False)
      | _ \<Rightarrow> False)"

fun funding_transitions :: "io_state \<Rightarrow> string \<Rightarrow> op list \<Rightarrow> db \<Rightarrow> nat" where
  "funding_transitions io k [] d = 0"
| "funding_transitions io k (x # xs) d =
     (if funding_transition io k x d then 1 else 0) + funding_transitions io k xs (db_after io x d)"

fun run :: "io_state \<Rightarrow> op list \<Rightarrow> db \<Rightarrow> db" where
  "run io [] d = d"
| "run io (x # xs) d = run io xs (db_after io x d)"

text \<open>The request is an unreserve made under the identity \<open>l\<close>.\<close>

fun unreserves_as :: "string \<Rightarrow> op \<Rightarrow> bool" where
  "unreserves_as l (Unreserve req) = (identity_of (user req) (nickname req) = Some l)"
| "unreserves_as l _ = False"

text \<open>\<open>reservedBy\<close> is set exactly on the reserved items.\<close>

definition row_consistent :: "item \<Rightarrow> bool" where
  "row_consistent i = ((reservedBy i \<noteq> None) = isReserved i)"

definition reserved_consistent :: "db \<Rightarrow> bool" where
  "reserved_consistent d = list_all row_consistent (items d)"

text \<open>The item is reserved under the label of the funding transition.\<close>

definition group_held :: "item \<Rightarrow> bool" where
  "group_held i = (isReserved i \<and> reservedBy i = Some ''Group contribution'')"

text \<open>The stored item \<open>k\<close> is reserved under the label of the funding transition.\<close>

definition held :: "db \<Rightarrow> string \<Rightarrow> bool" where
  "held d k = (case findUnique_item k (items d) of None \<Rightarrow> False | Some a \<Rightarrow> group_held a)"

text \<open>\<open>isFullyFunded\<close> as the contribution route computes it from the updated item.\<close>

definition funded :: "item \<Rightarrow> bool" where
  "funded u =
     (case price u of None \<Rightarrow> False | Some p \<Rightarrow> to_double p \<le> to_double (collectedAmount u))"

section \<open>Example data\<close>

text \<open>
  One public wishlist of user \<open>u1\<close> with one item priced 50, two connected sockets
  (\<open>A\<close> viewing the wishlist, \<open>B\<close> viewing another one), and some requests.
\<close>

definition ex_wishlist :: wishlist where
  "ex_wishlist = \<lparr>wl_id = ''w1'', ownerId = ''u1'', isPublic = True\<rparr>"

definition ex_id :: string where
  "ex_id = ''00000000-0000-4000-8000-000000000001''"

definition ex_item :: item where
  "ex_item = \<lparr>item_id = ex_id, wishlistId = ''w1'', price = Some 50, isReserved = False,
               reservedBy = None, collectedAmount = 0, hypeCount = 0, createdAt = 1\<rparr>"

definition ex_db :: db where
  "ex_db = \<lparr>wishlists = [ex_wishlist], items = [ex_item], contributions = []\<rparr>"

text \<open>The same store with the item reserved by the guest Kim.\<close>

definition ex_db_kim :: db where
  "ex_db_kim = \<lparr>wishlists = [ex_wishlist],
                 items = [ex_item\<lparr>isReserved := True, reservedBy := Some ''Kim''\<rparr>],
                 contributions = []\<rparr>"

definition ex_io :: io_state where
  "ex_io = \<lparr>sockets = [''A'', ''B''],
             memberships = [(''A'', ''A''), (''B'', ''B''), (''A'', ''wishlist:w1''), (''B'', ''wishlist:w2'')]\<rparr>"

definition guest :: "string \<Rightarrow> request" where
  "guest nick = \<lparr>user = None, param_id = ex_id, nickname = Some nick\<rparr>"

definition anonymous :: request where
  "anonymous = \<lparr>user = None, param_id = ex_id, nickname = None\<rparr>"

definition ex_owner :: userPayload where
  "ex_owner = \<lparr>user_id = ''u1'', email = ''owner@example.org''\<rparr>"

definition guest_contribution :: "string \<Rightarrow> rat \<Rightarrow> contribution_request" where
  "guest_contribution nick a =
     \<lparr>c_user = None,
      c_body = \<lparr>b_itemId = ex_id, b_amount = a, b_message = None, b_nickname = Some nick\<rparr>\<rparr>"

text \<open>
  Two contributions that reach the price, a reservation attempt and a late contribution;
  and a funded item released under the funding label and funded again.
\<close>

definition ex_trace :: "op list" where
  "ex_trace =
     [Contribute (guest_contribution ''Sam'' 30) ''c1'' 5,
      Contribute (guest_contribution ''Lee'' 20) ''c2'' 6,
      Reserve (guest ''Kim''),
      Contribute (guest_contribution ''Ann'' 5) ''c3'' 7]"

definition ex_refunded_trace :: "op list" where
  "ex_refunded_trace =
     [Contribute (guest_contribution ''Sam'' 50) ''c1'' 5,
      Unreserve (guest ''Group contribution''),
      Contribute (guest_contribution ''Lee'' 1) ''c2'' 6]"

text \<open>Three contributions whose total, 49.99999999999999999, stays below the price of 50.\<close>

definition ex_rounding_trace :: "op list" where
  "ex_rounding_trace =
     [Contribute (guest_contribution ''Sam'' (247 / 5)) ''c1'' 5,
      Contribute (guest_contribution ''Lee'' (9999999999999999 / 10 ^ 17)) ''c2'' 6,
      Contribute (guest_contribution ''Ann'' (1 / 2)) ''c3'' 7]"

text \<open>The example store after Sam has contributed 30 and Lee 20.\<close>

definition ex_db_funded :: db where
  "ex_db_funded = run ex_io
     [Contribute (guest_contribution ''Sam'' 30) ''c1'' 5,
      Contribute (guest_contribution ''Lee'' 20) ''c2'' 6] ex_db"

text \<open>Two viewers of one wishlist; the first one disconnects.\<close>

definition ex_presence :: "presence_op list" where
  "ex_presence = [Connect ''A'', Join ''A'' ''w1'', Connect ''B'', Join ''B'' ''w1'', Disconnect ''A'']"

definition no_sockets :: io_state where
  "no_sockets = \<lparr>sockets = [], memberships = []\<rparr>"

section \<open>Facts about amounts\<close>

lemma round30_exact:
  assumes "x = of_int n / 10 ^ 30"
  shows "round30 x = x"
proof -
  have f: "\<And>m::int. \<lfloor>(of_int m :: rat) + 1 / 2\<rfloor> = m" by (simp add: floor_unique)
  show ?thesis
  proof (cases "0 \<le> x")
    case True
    have "x * 10 ^ 30 = of_int n" using assms by simp
    then show ?thesis using True f[of n] assms by (simp add: round30_def)
  next
    case False
    have "- x * 10 ^ 30 = of_int (- n)" using assms by simp
    then have "\<lfloor>- x * 10 ^ 30 + 1 / 2\<rfloor> = - n" using f[of "- n"] by simp
    then show ?thesis using False assms by (simp add: round30_def)
  qed
qed

lemma round_half_even_mono:
  assumes "x \<le> y"
  shows "round_half_even x \<le> round_half_even y"
proof (cases "\<lfloor>x\<rfloor> = \<lfloor>y\<rfloor>")
  case True
  then show ?thesis using assms by (auto simp: round_half_even_def Let_def)
next
  case False
  then have "\<lfloor>x\<rfloor> + 1 \<le> \<lfloor>y\<rfloor>" using floor_mono[OF assms] by linarith
  moreover have "round_half_even x \<le> \<lfloor>x\<rfloor> + 1" by (auto simp: round_half_even_def Let_def)
  moreover have "\<lfloor>y\<rfloor> \<le> round_half_even y" by (auto simp: round_half_even_def Let_def)
  ultimately show ?thesis by linarith
qed

lemma round_half_even_of_int [simp]: "round_half_even (of_int n) = n"
  by (simp add: round_half_even_def)

lemma round_half_even_le:
  assumes "x \<le> of_int n"
  shows "round_half_even x \<le> n"
  using round_half_even_mono[OF assms] by simp

lemma round_half_even_ge:
  assumes "of_int n \<le> x"
  shows "n \<le> round_half_even x"
  using round_half_even_mono[OF assms] by simp

lemma floor_log2_bounds:
  assumes "0 < x"
  shows "2 powi floor_log2 x \<le> x" and "x < 2 powi (floor_log2 x + 1)"
proof -
  obtain a b where q: "quotient_of x = (a, b)" by (cases "quotient_of x")
  have b: "0 < b" using q by (rule quotient_of_denom_pos)
  have x: "x = of_int a / of_int b" using q by (rule quotient_of_div)
  have a: "0 < a" using assms b x by (simp add: zero_less_divide_iff)
  let ?k = "bitlen a - bitlen b"
  have la: "1 \<le> bitlen a" "1 \<le> bitlen b"
    using a b bitlen_eq_zero_iff[of a] bitlen_eq_zero_iff[of b] bitlen_nonneg[of a] bitlen_nonneg[of b]
    by linarith+
  have pw: "\<And>n::int. 0 \<le> n \<Longrightarrow> (2::rat) ^ nat n = 2 powi n"
    by (simp add: power_int_def)
  have ab1: "(of_int a :: rat) < 2 powi bitlen a"
  proof -
    have "a < 2 ^ nat (bitlen a)" using bitlen_bounds[OF a] by blast
    then have "(of_int a :: rat) < of_int (2 ^ nat (bitlen a))" by (simp only: of_int_less_iff)
    then show ?thesis using la by (simp add: pw[of "bitlen a", symmetric])
  qed
  have ab2: "(2::rat) powi (bitlen a - 1) \<le> of_int a"
  proof -
    have "2 ^ nat (bitlen a - 1) \<le> a" using bitlen_bounds[OF a] by blast
    then have "(of_int (2 ^ nat (bitlen a - 1)) :: rat) \<le> of_int a" by (simp only: of_int_le_iff)
    then show ?thesis using la by (simp add: pw[of "bitlen a - 1", symmetric])
  qed
  have bb1: "(of_int b :: rat) < 2 powi bitlen b"
  proof -
    have "b < 2 ^ nat (bitlen b)" using bitlen_bounds[OF b] by blast
    then have "(of_int b :: rat) < of_int (2 ^ nat (bitlen b))" by (simp only: of_int_less_iff)
    then show ?thesis using la by (simp add: pw[of "bitlen b", symmetric])
  qed
  have bb2: "(2::rat) powi (bitlen b - 1) \<le> of_int b"
  proof -
    have "2 ^ nat (bitlen b - 1) \<le> b" using bitlen_bounds[OF b] by blast
    then have "(of_int (2 ^ nat (bitlen b - 1)) :: rat) \<le> of_int b" by (simp only: of_int_le_iff)
    then show ?thesis using la by (simp add: pw[of "bitlen b - 1", symmetric])
  qed
  have bpos: "(0::rat) < of_int b" using b by simp
  have up: "x < 2 powi (?k + 1)"
  proof -
    have "x * of_int b = of_int a" using x bpos by simp
    also have "\<dots> < 2 powi bitlen a" by (rule ab1)
    also have "(2::rat) powi bitlen a = 2 powi (?k + 1) * 2 powi (bitlen b - 1)"
      using power_int_add[of "2::rat" "?k + 1" "bitlen b - 1"] by simp
    also have "\<dots> \<le> 2 powi (?k + 1) * of_int b"
      using bb2 by (intro mult_left_mono) simp_all
    finally show ?thesis using bpos by simp
  qed
  have lo: "2 powi (?k - 1) \<le> x"
  proof -
    have "2 powi (?k - 1) * of_int b \<le> 2 powi (?k - 1) * (2::rat) powi bitlen b"
      using bb1 by (intro mult_left_mono) simp_all
    also have "\<dots> = 2 powi (bitlen a - 1)"
      using power_int_add[of "2::rat" "?k - 1" "bitlen b"] by simp
    also have "\<dots> \<le> of_int a" by (rule ab2)
    also have "\<dots> = x * of_int b" using x bpos by simp
    finally show ?thesis using bpos by simp
  qed
  show "2 powi floor_log2 x \<le> x" using lo q by (simp add: floor_log2_def Let_def)
  show "x < 2 powi (floor_log2 x + 1)" using up q
    by (auto simp: floor_log2_def Let_def not_le)
qed

lemma floor_log2_mono:
  assumes "0 < x" and "x \<le> y"
  shows "floor_log2 x \<le> floor_log2 y"
proof -
  have "(2::rat) powi floor_log2 x \<le> x" using assms(1) by (rule floor_log2_bounds)
  also have "\<dots> \<le> y" by (rule assms)
  also have "\<dots> < 2 powi (floor_log2 y + 1)" using assms by (intro floor_log2_bounds) simp
  finally have lt: "(2::rat) powi floor_log2 x < 2 powi (floor_log2 y + 1)" .
  show ?thesis
  proof (rule ccontr)
    assume "\<not> floor_log2 x \<le> floor_log2 y"
    then have "floor_log2 y + 1 \<le> floor_log2 x" by simp
    then have "(2::rat) powi (floor_log2 y + 1) \<le> 2 powi floor_log2 x"
      by (intro power_int_increasing) simp_all
    then show False using lt by simp
  qed
qed

lemma round30_form: "\<exists>n. round30 x = of_int n / 10 ^ 30"
proof (cases "0 \<le> x")
  case True
  then show ?thesis by (auto simp: round30_def)
next
  case False
  then show ?thesis
    by (intro exI[of _ "- \<lfloor>- x * 10 ^ 30 + 1 / 2\<rfloor>"]) (simp add: round30_def)
qed

lemma round30_add_exact:
  assumes "round30 x = x" and "round30 y = y"
  shows "round30 (x + y) = x + y"
proof -
  obtain n where n: "round30 x = of_int n / 10 ^ 30" using round30_form by blast
  obtain m where m: "round30 y = of_int m / 10 ^ 30" using round30_form by blast
  have "x + y = of_int (n + m) / 10 ^ 30" using assms n m by (simp add: add_divide_distrib)
  then show ?thesis by (rule round30_exact)
qed

lemma round30_of_int: "round30 (of_int n) = of_int n"
proof -
  have "(of_int n :: rat) = of_int (n * 10 ^ 30) / 10 ^ 30" by simp
  then show ?thesis by (rule round30_exact)
qed

lemma round30_numeral: "round30 (numeral w) = numeral w" "round30 0 = 0" "round30 1 = 1"
  using round30_of_int[of "numeral w"] round30_of_int[of 0] round30_of_int[of 1] by simp_all

lemma store_decimal_round30:
  "store_decimal x = Some c \<Longrightarrow> c = round30 x"
  by (auto simp: store_decimal_def Let_def split: if_splits)

lemma to_double_values:
  "to_double 0 = 0" "to_double 30 = 30" "to_double 50 = 50" "to_double 51 = 51"
  by code_simp+

text \<open>
  The double nearest to 49.99999999999999999 is 50, and the one nearest to 0.1 is not
  0.1; a column stores \<open>1e-31\<close> as 0 and refuses \<open>1e35\<close>.
\<close>

lemma number_examples:
  "to_double (4999999999999999999 / 10 ^ 17) = 50"
  "to_double (1 / 10) = 3602879701896397 / 36028797018963968"
  "store_decimal (1 / 10 ^ 31) = Some 0"
  "store_decimal (10 ^ 35) = None"
  by code_simp+

lemma powi_53: "(2::rat) powi (e + 1) = 2 powi 53 * 2 powi (e - 52)"
proof -
  have "e + 1 = 53 + (e - 52)" by simp
  then have "(2::rat) powi (e + 1) = 2 powi (53 + (e - 52))" by (simp only:)
  also have "\<dots> = 2 powi 53 * 2 powi (e - 52)" by (rule power_int_add) simp
  finally show ?thesis .
qed

lemma powi_52: "(2::rat) powi e = 2 powi 52 * 2 powi (e - 52)"
proof -
  have "e = 52 + (e - 52)" by simp
  then have "(2::rat) powi e = 2 powi (52 + (e - 52))" by (simp only:)
  also have "\<dots> = 2 powi 52 * 2 powi (e - 52)" by (rule power_int_add) simp
  finally show ?thesis .
qed

lemma nearest_double_upper:
  assumes "0 < x"
  shows "nearest_double x \<le> 2 powi (max (floor_log2 x) (- 1022) + 1)"
proof -
  define e where "e = max (floor_log2 x) (- 1022)"
  define u where "u = (2::rat) powi (e - 52)"
  define r where "r = round_half_even (x / u)"
  have n: "nearest_double x = of_int r * u"
    by (simp add: nearest_double_def Let_def e_def u_def r_def)
  have u: "0 < u" by (simp add: u_def)
  have "floor_log2 x + 1 \<le> e + 1" by (simp add: e_def)
  then have "(2::rat) powi (floor_log2 x + 1) \<le> 2 powi (e + 1)"
    by (intro power_int_increasing) simp_all
  moreover have "x < 2 powi (floor_log2 x + 1)" using assms by (rule floor_log2_bounds)
  ultimately have "x < 2 powi (e + 1)" by simp
  then have "x < 2 powi 53 * u" unfolding u_def using powi_53[of e] by simp
  then have "x / u < 2 powi 53" using u by (simp add: divide_less_eq)
  then have "x / u \<le> of_int (2 ^ 53)" by simp
  then have "r \<le> 2 ^ 53" unfolding r_def by (rule round_half_even_le)
  then have "(of_int r :: rat) \<le> of_int (2 ^ 53)" by (simp only: of_int_le_iff)
  then have "of_int r * u \<le> of_int (2 ^ 53) * u" using u by (intro mult_right_mono) simp_all
  moreover have "of_int (2 ^ 53) * u = 2 powi (e + 1)" unfolding u_def using powi_53[of e] by simp
  ultimately show ?thesis using n unfolding e_def by simp
qed

lemma nearest_double_lower:
  assumes "0 < x" and "- 1022 \<le> floor_log2 x"
  shows "2 powi floor_log2 x \<le> nearest_double x"
proof -
  define e where "e = floor_log2 x"
  define u where "u = (2::rat) powi (e - 52)"
  define r where "r = round_half_even (x / u)"
  have m: "max (floor_log2 x) (- 1022) = e" using assms(2) by (simp add: e_def)
  have n: "nearest_double x = of_int r * u"
    by (simp add: nearest_double_def Let_def m u_def r_def)
  have u: "0 < u" by (simp add: u_def)
  have p: "2 powi 52 * u = 2 powi e" unfolding u_def using powi_52[of e] by simp
  have "2 powi e \<le> x" unfolding e_def using assms(1) by (rule floor_log2_bounds)
  then have "2 powi 52 * u \<le> x" using p by simp
  then have "2 powi 52 \<le> x / u" using u by (simp add: le_divide_eq)
  then have "of_int (2 ^ 52) \<le> x / u" by simp
  then have "2 ^ 52 \<le> r" unfolding r_def by (rule round_half_even_ge)
  then have "(of_int (2 ^ 52) :: rat) \<le> of_int r" by (simp only: of_int_le_iff)
  then have "of_int (2 ^ 52) * u \<le> of_int r * u" using u by (intro mult_right_mono) simp_all
  moreover have "of_int (2 ^ 52) * u = 2 powi e" using p by simp
  ultimately show ?thesis using n unfolding e_def by simp
qed

lemma nearest_double_nonneg:
  assumes "0 < x"
  shows "0 \<le> nearest_double x"
proof -
  define u where "u = (2::rat) powi (max (floor_log2 x) (- 1022) - 52)"
  have u: "0 < u" by (simp add: u_def)
  have "(of_int 0 :: rat) \<le> x / u" using assms u by simp
  then have "0 \<le> round_half_even (x / u)" by (rule round_half_even_ge)
  then show ?thesis using u by (simp add: nearest_double_def Let_def u_def)
qed

lemma nearest_double_mono:
  assumes "0 < x" and "x \<le> y"
  shows "nearest_double x \<le> nearest_double y"
proof -
  define ex where "ex = max (floor_log2 x) (- 1022)"
  define ey where "ey = max (floor_log2 y) (- 1022)"
  have y: "0 < y" using assms by simp
  have f: "floor_log2 x \<le> floor_log2 y" using assms by (rule floor_log2_mono)
  then have le: "ex \<le> ey" by (simp add: ex_def ey_def)
  show ?thesis
  proof (cases "ex = ey")
    case True
    define u where "u = (2::rat) powi (ex - 52)"
    have u: "0 < u" by (simp add: u_def)
    have "x / u \<le> y / u" using assms(2) u by (simp add: divide_right_mono)
    then have "round_half_even (x / u) \<le> round_half_even (y / u)" by (rule round_half_even_mono)
    then have "(of_int (round_half_even (x / u)) :: rat) \<le> of_int (round_half_even (y / u))"
      by (simp only: of_int_le_iff)
    then have "of_int (round_half_even (x / u)) * u \<le> of_int (round_half_even (y / u)) * u"
      using u by (intro mult_right_mono) simp_all
    moreover have "nearest_double x = of_int (round_half_even (x / u)) * u"
      by (simp add: nearest_double_def Let_def u_def ex_def)
    moreover have "nearest_double y = of_int (round_half_even (y / u)) * u"
      using True by (simp add: nearest_double_def Let_def u_def ey_def)
    ultimately show ?thesis by simp
  next
    case False
    then have lt: "ex < ey" using le by simp
    then have ey: "ey = floor_log2 y" "- 1022 \<le> floor_log2 y"
      by (simp_all add: ex_def ey_def max_def split: if_splits)
    have "nearest_double x \<le> 2 powi (ex + 1)"
      unfolding ex_def using assms(1) by (rule nearest_double_upper)
    also have "\<dots> \<le> 2 powi floor_log2 y"
      using lt ey by (intro power_int_increasing) simp_all
    also have "\<dots> \<le> nearest_double y" using y ey(2) by (rule nearest_double_lower)
    finally show ?thesis .
  qed
qed

lemma to_double_mono:
  assumes "x \<le> y"
  shows "to_double x \<le> to_double y"
proof -
  consider "0 < x" | "x = 0" | "x < 0" "y < 0" | "x < 0" "0 \<le> y" by linarith
  then show ?thesis
  proof cases
    case 1
    then show ?thesis using assms nearest_double_mono[of x y] by (simp add: to_double_def)
  next
    case 2
    then show ?thesis using assms nearest_double_nonneg[of y] by (auto simp: to_double_def)
  next
    case 3
    then have "nearest_double (- y) \<le> nearest_double (- x)"
      using assms by (intro nearest_double_mono) simp_all
    then show ?thesis using 3 by (simp add: to_double_def)
  next
    case 4
    have "0 \<le> nearest_double (- x)" using 4 by (intro nearest_double_nonneg) simp
    moreover have "0 \<le> to_double y" using 4 nearest_double_nonneg[of y] by (auto simp: to_double_def)
    ultimately show ?thesis using 4 by (simp add: to_double_def)
  qed
qed

section \<open>Facts about the persistence primitives\<close>

lemma find_map_pres:
  assumes "\<And>x. P (f x) = P x"
  shows "find P (map f xs) = map_option f (find P xs)"
  using assms by (induction xs) auto

lemma filter_key_single:
  assumes "distinct (map k xs)" and "find (\<lambda>x. k x = a) xs = Some x"
  shows "filter (\<lambda>y. k y = a) xs = [x]"
  using assms
proof (induction xs)
  case Nil
  then show ?case by simp
next
  case (Cons y ys)
  show ?case
  proof (cases "k y = a")
    case True
    then have "x = y" using Cons.prems by simp
    moreover have "\<forall>z \<in> set ys. k z \<noteq> a"
      using Cons.prems(1) True by (auto simp: image_iff)
    then have "filter (\<lambda>z. k z = a) ys = []"
      by (simp add: filter_empty_conv)
    ultimately show ?thesis using True by simp
  next
    case False
    then show ?thesis using Cons by simp
  qed
qed

lemma findUnique_item_Some:
  "findUnique_item k tbl = Some i \<Longrightarrow> i \<in> set tbl \<and> item_id i = k"
  unfolding findUnique_item_def by (auto simp: find_Some_iff)

lemma findUnique_item_None:
  "findUnique_item k tbl = None \<longleftrightarrow> (\<forall>i \<in> set tbl. item_id i \<noteq> k)"
  unfolding findUnique_item_def by (auto simp: find_None_iff)

lemma findUnique_item_map:
  assumes "\<And>i. item_id (f i) = item_id i"
  shows "findUnique_item k (map f tbl) = map_option f (findUnique_item k tbl)"
  unfolding findUnique_item_def using assms by (intro find_map_pres) simp

lemma updateMany_count_key:
  assumes "distinct (map item_id tbl)" and "findUnique_item k tbl = Some i"
  shows "snd (updateMany (\<lambda>j. item_id j = k \<and> c j) upd tbl) = (if c i then 1 else 0)"
proof -
  have "filter (\<lambda>j. item_id j = k \<and> c j) tbl = filter c (filter (\<lambda>j. item_id j = k) tbl)"
    by (simp add: conj_commute)
  also have "\<dots> = filter c [i]"
    using filter_key_single[of item_id tbl k i] assms unfolding findUnique_item_def by simp
  finally show ?thesis by (simp add: updateMany_def)
qed

lemma updateMany_noop:
  assumes "snd (updateMany wh upd tbl) = 0"
  shows "fst (updateMany wh upd tbl) = tbl"
proof -
  have "filter wh tbl = []" using assms by (simp add: updateMany_def)
  then have "\<forall>i \<in> set tbl. \<not> wh i" by (simp add: filter_empty_conv)
  then show ?thesis by (simp add: updateMany_def map_idI)
qed

lemma updateMany_table_key:
  assumes "distinct (map item_id tbl)" and "findUnique_item k tbl = Some i" and "c i"
  shows "fst (updateMany (\<lambda>j. item_id j = k \<and> c j) upd tbl)
         = map (\<lambda>j. if item_id j = k then upd j else j) tbl"
proof -
  have "filter (\<lambda>j. item_id j = k) tbl = [i]"
    using filter_key_single[of item_id tbl k i] assms unfolding findUnique_item_def by simp
  then have "set (filter (\<lambda>j. item_id j = k) tbl) = {i}" by simp
  then have "\<forall>j \<in> set tbl. item_id j = k \<longrightarrow> j = i" by auto
  then show ?thesis using assms(3) by (auto simp: updateMany_def)
qed

lemma findUnique_item_include_Some:
  "findUnique_item_include k d = Some (it, w) \<Longrightarrow> findUnique_item k (items d) = Some it"
  unfolding findUnique_item_include_def by (auto split: option.splits)

lemma findUnique_item_update_key:
  assumes "findUnique_item k tbl = Some i" and "\<And>j. item_id (upd j) = item_id j"
  shows "findUnique_item k (map (\<lambda>j. if item_id j = k then upd j else j) tbl) = Some (upd i)"
proof -
  have "findUnique_item k (map (\<lambda>j. if item_id j = k then upd j else j) tbl)
        = map_option (\<lambda>j. if item_id j = k then upd j else j) (findUnique_item k tbl)"
    by (rule findUnique_item_map) (simp add: assms(2))
  then show ?thesis using assms(1) findUnique_item_Some[OF assms(1)] by simp
qed

lemma findUnique_item_update_other:
  assumes "k' \<noteq> k" and "\<And>j. item_id (upd j) = item_id j"
  shows "findUnique_item k' (map (\<lambda>j. if item_id j = k then upd j else j) tbl) = findUnique_item k' tbl"
proof -
  have "findUnique_item k' (map (\<lambda>j. if item_id j = k then upd j else j) tbl)
        = map_option (\<lambda>j. if item_id j = k then upd j else j) (findUnique_item k' tbl)"
    by (rule findUnique_item_map) (simp add: assms(2))
  then show ?thesis using assms(1)
    by (cases "findUnique_item k' tbl") (auto dest: findUnique_item_Some)
qed

lemma reserveItem_reserved:
  assumes "pk_items d" and "findUnique_item_include itemId d = Some (it, Some wl)"
    and "reserverId \<noteq> Some (ownerId wl)" and "isReserved it"
  shows "reserveItem itemId label reserverId io d = (Inl (Error ''Item is already reserved''), [], d)"
proof -
  let ?u = "updateMany (\<lambda>i. item_id i = itemId \<and> isReserved i = False)
              (\<lambda>i. i\<lparr>isReserved := True, reservedBy := Some label\<rparr>) (items d)"
  have f: "findUnique_item itemId (items d) = Some it"
    using assms(2) by (rule findUnique_item_include_Some)
  have c: "snd ?u = 0"
    using updateMany_count_key[OF assms(1)[unfolded pk_items_def] f, of "\<lambda>i. isReserved i = False"] assms(4)
    by simp
  have t: "fst ?u = items d" using c by (rule updateMany_noop)
  have "?u = (items d, 0)" using c t by (simp add: prod_eq_iff)
  then show ?thesis using assms(2,3) by (simp add: reserveItem_def)
qed

lemma reserveItem_free:
  assumes "pk_items d" and "findUnique_item_include itemId d = Some (it, Some wl)"
    and "reserverId \<noteq> Some (ownerId wl)" and "\<not> isReserved it"
  shows "reserveItem itemId label reserverId io d =
     (Inr (it\<lparr>isReserved := True, reservedBy := Some label\<rparr>),
      (case io of None \<Rightarrow> []
       | Some s \<Rightarrow> [emit_all s (''wishlist:'' @ wishlistId it)
                     (ITEM_RESERVED (wishlistId it) itemId True (Some label))]),
      d\<lparr>items := map (\<lambda>i. if item_id i = itemId then i\<lparr>isReserved := True, reservedBy := Some label\<rparr> else i) (items d)\<rparr>)"
proof -
  let ?upd = "\<lambda>i::item. i\<lparr>isReserved := True, reservedBy := Some label\<rparr>"
  let ?u = "updateMany (\<lambda>i. item_id i = itemId \<and> isReserved i = False) ?upd (items d)"
  let ?tbl = "map (\<lambda>i. if item_id i = itemId then ?upd i else i) (items d)"
  have f: "findUnique_item itemId (items d) = Some it"
    using assms(2) by (rule findUnique_item_include_Some)
  have c: "snd ?u = 1"
    using updateMany_count_key[OF assms(1)[unfolded pk_items_def] f, of "\<lambda>i. isReserved i = False"] assms(4)
    by simp
  have t: "fst ?u = ?tbl"
    using updateMany_table_key[OF assms(1)[unfolded pk_items_def] f, of "\<lambda>i. isReserved i = False"] assms(4)
    by simp
  have u: "?u = (?tbl, 1)" using c t by (simp add: prod_eq_iff)
  have g: "findUnique_item itemId ?tbl = Some (?upd it)"
    by (rule findUnique_item_update_key[OF f]) simp
  show ?thesis using assms(2,3) u g by (simp add: reserveItem_def)
qed

section \<open>What a failing call leaves behind\<close>

lemma updateMany_hit_found:
  assumes "snd (updateMany wh upd tbl) \<noteq> 0"
    and "\<And>i. wh i \<Longrightarrow> item_id i = k"
    and "\<And>i. item_id (upd i) = item_id i"
  shows "findUnique_item k (fst (updateMany wh upd tbl)) \<noteq> None"
proof -
  have "filter wh tbl \<noteq> []" using assms(1) by (simp add: updateMany_def)
  then obtain i where i: "i \<in> set tbl" "wh i" by (auto simp: filter_empty_conv)
  have "findUnique_item k (map (\<lambda>i. if wh i then upd i else i) tbl)
        = map_option (\<lambda>i. if wh i then upd i else i) (findUnique_item k tbl)"
    by (rule findUnique_item_map) (simp add: assms(3))
  moreover have "findUnique_item k tbl \<noteq> None"
    using i assms(2) by (auto simp: findUnique_item_None)
  ultimately show ?thesis by (simp add: updateMany_def)
qed

lemma reserveItem_cases:
  assumes "reserveItem k label rid io d = (r, out, d')"
  shows "(\<exists>e. r = Inl e \<and> out = [] \<and> d' = d)
       \<or> (\<exists>u. r = Inr u \<and>
            d' = d\<lparr>items := fst (updateMany (\<lambda>i. item_id i = k \<and> isReserved i = False)
                     (\<lambda>i. i\<lparr>isReserved := True, reservedBy := Some label\<rparr>) (items d))\<rparr>)"
proof -
  let ?u = "updateMany (\<lambda>i. item_id i = k \<and> isReserved i = False)
              (\<lambda>i. i\<lparr>isReserved := True, reservedBy := Some label\<rparr>) (items d)"
  have noop: "snd ?u = 0 \<Longrightarrow> d\<lparr>items := fst ?u\<rparr> = d"
    using updateMany_noop[of "\<lambda>i. item_id i = k \<and> isReserved i = False" _ "items d"] by simp
  have hit: "snd ?u \<noteq> 0 \<Longrightarrow> findUnique_item k (fst ?u) \<noteq> None"
    by (rule updateMany_hit_found) auto
  show ?thesis
  proof (cases "snd ?u = 0")
    case True
    then show ?thesis using assms noop
      by (auto simp: reserveItem_def Let_def split_beta split: option.splits if_splits)
  next
    case False
    then show ?thesis using assms hit
      by (auto simp: reserveItem_def Let_def split_beta split: option.splits if_splits)
  qed
qed

lemma unreserveItem_cases:
  assumes "unreserveItem k ident io d = (r, out, d')"
  shows "(\<exists>e. r = Inl e \<and> out = [] \<and> d' = d)
       \<or> (\<exists>u. r = Inr u \<and>
            d' = d\<lparr>items := fst (updateMany (\<lambda>i. item_id i = k \<and> reservedBy i = ident \<and> isReserved i = True)
                     (\<lambda>i. i\<lparr>isReserved := False, reservedBy := None\<rparr>) (items d))\<rparr>)"
proof -
  let ?u = "updateMany (\<lambda>i. item_id i = k \<and> reservedBy i = ident \<and> isReserved i = True)
              (\<lambda>i. i\<lparr>isReserved := False, reservedBy := None\<rparr>) (items d)"
  have noop: "snd ?u = 0 \<Longrightarrow> d\<lparr>items := fst ?u\<rparr> = d"
    using updateMany_noop[of "\<lambda>i. item_id i = k \<and> reservedBy i = ident \<and> isReserved i = True" _ "items d"] by simp
  have hit: "snd ?u \<noteq> 0 \<Longrightarrow> findUnique_item k (fst ?u) \<noteq> None"
    by (rule updateMany_hit_found) auto
  show ?thesis
  proof (cases "snd ?u = 0")
    case True
    then show ?thesis using assms noop
      by (auto simp: unreserveItem_def Let_def split_beta split: option.splits if_splits)
  next
    case False
    then show ?thesis using assms hit
      by (auto simp: unreserveItem_def Let_def split_beta split: option.splits if_splits)
  qed
qed

lemma reserve_route_failure:
  assumes "status (fst (reserve_route req io d)) \<noteq> 200"
  shows "snd (snd (reserve_route req io d)) = d"
proof (cases "identity_of (user req) (nickname req)")
  case None
  then show ?thesis by (simp add: reserve_route_def)
next
  case (Some label)
  show ?thesis
  proof (cases "label = []")
    case True
    then show ?thesis using Some by (simp add: reserve_route_def)
  next
    case False
    obtain r out d' where res: "reserveItem (param_id req) label (map_option user_id (user req)) (Some io) d = (r, out, d')"
      by (cases "reserveItem (param_id req) label (map_option user_id (user req)) (Some io) d") auto
    have "\<exists>e. r = Inl e"
      using assms Some False res by (cases r) (auto simp: reserve_route_def)
    then have "d' = d" using reserveItem_cases[OF res] by auto
    then show ?thesis using Some False res
      by (auto simp: reserve_route_def split: sum.splits)
  qed
qed

lemma unreserve_route_failure:
  assumes "status (fst (unreserve_route req io d)) \<noteq> 200"
  shows "snd (snd (unreserve_route req io d)) = d"
proof -
  obtain r out d' where res: "unreserveItem (param_id req) (identity_of (user req) (nickname req)) (Some io) d = (r, out, d')"
    by (cases "unreserveItem (param_id req) (identity_of (user req) (nickname req)) (Some io) d") auto
  have "\<exists>e. r = Inl e"
    using assms res by (cases r) (auto simp: unreserve_route_def)
  then have "d' = d" using unreserveItem_cases[OF res] by auto
  then show ?thesis using res
    by (auto simp: unreserve_route_def split: sum.splits)
qed

lemma transaction_failure:
  "fst (transaction body d) = Inl e \<Longrightarrow> snd (transaction body d) = d"
  by (auto simp: transaction_def split: prod.splits sum.splits)

lemma contribution_route_failure:
  assumes "status (fst (contribution_route req io newId now d)) \<noteq> 200"
  shows "snd (snd (contribution_route req io newId now d)) = d"
  using assms
  by (auto simp: contribution_route_def transaction_def Let_def split: option.splits prod.splits sum.splits if_splits)

section \<open>Evaluation on the example data\<close>

lemmas ex_defs = ex_wishlist_def ex_id_def ex_item_def ex_db_def ex_db_kim_def ex_io_def guest_def
  anonymous_def ex_owner_def guest_contribution_def

lemmas route_defs = reserve_route_def reserveItem_def unreserve_route_def unreserveItem_def
  contribution_route_def contribute_body_def transaction_def identity_of_def falsy_def
  findUnique_item_include_def findUnique_item_def findUnique_wishlist_def updateMany_def update_item_def
  contributionSchema_ok_def is_uuid_def is_hex_def emit_all_def emit_to_def room_members_def rooms_get_def
  hype_route_def hypeItem_def Let_def increment_collected_def store_decimal_def round30_numeral
  to_double_values

section \<open>Reservation\<close>

text \<open>
  C1. A reserve call on an existing item whose requester is not the owner of the wishlist
  makes one conditional update: it sets \<open>isReserved\<close> and \<open>reservedBy = label\<close>
  on the item only if the item was not reserved. The update rewrites no row exactly when
  the item was already reserved; exactly then the call fails with the error
  \<open>Item is already reserved\<close> (which the route answers with status 400) and the store
  is as before. Otherwise the call succeeds, the stored item is the old one with the
  two fields set, and no other item changes.
\<close>

theorem reserve_conditional_transition:
  assumes "pk_items d"
    and "findUnique_item_include itemId d = Some (it, Some wl)"
    and "reserverId \<noteq> Some (ownerId wl)"
  shows
    "let upd = (\<lambda>i. i\<lparr>isReserved := True, reservedBy := Some label\<rparr>);
         count = snd (updateMany (\<lambda>i. item_id i = itemId \<and> isReserved i = False) upd (items d));
         res = reserveItem itemId label reserverId io d
     in (count = 0 \<longleftrightarrow> isReserved it)
      \<and> (fst res = Inl (Error ''Item is already reserved'') \<longleftrightarrow> count = 0)
      \<and> (count = 0 \<longrightarrow> snd (snd res) = d)
      \<and> (count \<noteq> 0 \<longrightarrow>
            fst res = Inr (upd it)
          \<and> findUnique_item itemId (items (snd (snd res))) = Some (upd it))
      \<and> (\<forall>k. k \<noteq> itemId \<longrightarrow>
            findUnique_item k (items (snd (snd res))) = findUnique_item k (items d))
      \<and> (\<forall>req s. param_id req = itemId \<and> identity_of (user req) (nickname req) = Some label
              \<and> label \<noteq> [] \<and> map_option user_id (user req) = reserverId \<longrightarrow>
            fst (reserve_route req s d)
              = (if count = 0
                 then \<lparr>status = 400, json = ErrorJson (Error ''Item is already reserved'')\<rparr>
                 else \<lparr>status = 200, json = MessageJson ''Item reserved!''\<rparr>))"
proof -
  let ?upd = "\<lambda>i::item. i\<lparr>isReserved := True, reservedBy := Some label\<rparr>"
  let ?count = "snd (updateMany (\<lambda>i. item_id i = itemId \<and> isReserved i = False) ?upd (items d))"
  have f: "findUnique_item itemId (items d) = Some it"
    using assms(2) by (rule findUnique_item_include_Some)
  have c: "?count = (if isReserved it then 0 else 1)"
    using updateMany_count_key[OF assms(1)[unfolded pk_items_def] f, of "\<lambda>i. isReserved i = False"]
    by simp
  show ?thesis
  proof (cases "isReserved it")
    case True
    have r: "reserveItem itemId label reserverId io d = (Inl (Error ''Item is already reserved''), [], d)"
      using assms True by (rule reserveItem_reserved)
    have "\<And>req s. param_id req = itemId \<Longrightarrow> identity_of (user req) (nickname req) = Some label
            \<Longrightarrow> label \<noteq> [] \<Longrightarrow> map_option user_id (user req) = reserverId
            \<Longrightarrow> fst (reserve_route req s d)
                = \<lparr>status = 400, json = ErrorJson (Error ''Item is already reserved'')\<rparr>"
      using reserveItem_reserved[OF assms True, of label] by (simp add: reserve_route_def)
    then show ?thesis using c True r by (simp add: Let_def)
  next
    case False
    let ?tbl = "map (\<lambda>i. if item_id i = itemId then ?upd i else i) (items d)"
    have r: "reserveItem itemId label reserverId io d =
       (Inr (?upd it),
        (case io of None \<Rightarrow> []
         | Some s \<Rightarrow> [emit_all s (''wishlist:'' @ wishlistId it)
                       (ITEM_RESERVED (wishlistId it) itemId True (Some label))]),
        d\<lparr>items := ?tbl\<rparr>)"
      using assms False by (rule reserveItem_free)
    have g: "findUnique_item itemId ?tbl = Some (?upd it)"
      by (rule findUnique_item_update_key[OF f]) simp
    have o: "\<And>k. k \<noteq> itemId \<Longrightarrow> findUnique_item k ?tbl = findUnique_item k (items d)"
      by (rule findUnique_item_update_other) simp_all
    have "\<And>req s. param_id req = itemId \<Longrightarrow> identity_of (user req) (nickname req) = Some label
            \<Longrightarrow> label \<noteq> [] \<Longrightarrow> map_option user_id (user req) = reserverId
            \<Longrightarrow> fst (reserve_route req s d) = \<lparr>status = 200, json = MessageJson ''Item reserved!''\<rparr>"
      using reserveItem_free[OF assms False, of label] by (simp add: reserve_route_def)
    then show ?thesis using c False r g o by (simp add: Let_def)
  qed
qed

theorem reserve_conditional_transition_witness:
  "pk_items ex_db_kim
   \<and> findUnique_item_include ex_id ex_db_kim
       = Some (ex_item\<lparr>isReserved := True, reservedBy := Some ''Kim''\<rparr>, Some ex_wishlist)
   \<and> None \<noteq> Some (ownerId ex_wishlist)
   \<and> fst (reserveItem ex_id ''Lee'' None (Some ex_io) ex_db_kim) = Inl (Error ''Item is already reserved'')
   \<and> snd (snd (reserveItem ex_id ''Lee'' None (Some ex_io) ex_db_kim)) = ex_db_kim"
proof -
  have h1: "pk_items ex_db_kim" by (simp add: pk_items_def ex_defs)
  have h2: "findUnique_item_include ex_id ex_db_kim
       = Some (ex_item\<lparr>isReserved := True, reservedBy := Some ''Kim''\<rparr>, Some ex_wishlist)"
    by (simp add: ex_defs route_defs)
  have h3: "None \<noteq> Some (ownerId ex_wishlist)" by simp
  have r: "isReserved (ex_item\<lparr>isReserved := True, reservedBy := Some ''Kim''\<rparr>)" by simp
  show ?thesis
    using h1 h2 reserve_conditional_transition [OF h1 h2 h3, of "''Lee''" "Some ex_io"] r
    by (simp add: Let_def)
qed

section \<open>Failures write nothing\<close>

text \<open>
  C6. Whenever the reserve, unreserve or contribute route answers with a failure (any
  status other than 200: not found, forbidden, already reserved, validation), the store
  after the call is the store before it.
\<close>

theorem failure_leaves_store_unchanged:
  "(status (fst (reserve_route req io d)) \<noteq> 200 \<longrightarrow> snd (snd (reserve_route req io d)) = d)
   \<and> (status (fst (unreserve_route req io d)) \<noteq> 200 \<longrightarrow> snd (snd (unreserve_route req io d)) = d)
   \<and> (status (fst (contribution_route creq io newId now d)) \<noteq> 200 \<longrightarrow>
        snd (snd (contribution_route creq io newId now d)) = d)"
  using reserve_route_failure unreserve_route_failure contribution_route_failure by blast

theorem failure_leaves_store_unchanged_witness:
  "status (fst (reserve_route (guest ''Lee'') ex_io ex_db_kim)) \<noteq> 200
   \<and> snd (snd (reserve_route (guest ''Lee'') ex_io ex_db_kim)) = ex_db_kim
   \<and> status (fst (unreserve_route (guest ''Lee'') ex_io ex_db_kim)) \<noteq> 200
   \<and> snd (snd (unreserve_route (guest ''Lee'') ex_io ex_db_kim)) = ex_db_kim
   \<and> status (fst (contribution_route (guest_contribution ''Sam'' 30) ex_io ''c1'' 5 ex_db_kim)) \<noteq> 200
   \<and> snd (snd (contribution_route (guest_contribution ''Sam'' 30) ex_io ''c1'' 5 ex_db_kim)) = ex_db_kim"
proof -
  have a: "status (fst (reserve_route (guest ''Lee'') ex_io ex_db_kim)) \<noteq> 200"
    by (simp add: ex_defs route_defs)
  have b: "status (fst (unreserve_route (guest ''Lee'') ex_io ex_db_kim)) \<noteq> 200"
    by (simp add: ex_defs route_defs)
  have c: "status (fst (contribution_route (guest_contribution ''Sam'' 30) ex_io ''c1'' 5 ex_db_kim)) \<noteq> 200"
    by (simp add: ex_defs route_defs)
  show ?thesis
    using a b c
      failure_leaves_store_unchanged [of "guest ''Lee''" ex_io ex_db_kim "guest_contribution ''Sam'' 30" "''c1''" 5]
    by blast
qed

section \<open>Releasing a reservation\<close>

lemma unreserveItem_denied:
  assumes "pk_items d" and "findUnique_item_include itemId d = Some (it, w)"
    and "falsy ident \<or> \<not> (isReserved it \<and> reservedBy it = ident)"
  shows "unreserveItem itemId ident io d
         = (Inl (Error ''Only the person who reserved can unreserve''), [], d)"
proof (cases "falsy ident")
  case True
  then show ?thesis using assms(2) by (simp add: unreserveItem_def)
next
  case False
  let ?u = "updateMany (\<lambda>i. item_id i = itemId \<and> reservedBy i = ident \<and> isReserved i = True)
              (\<lambda>i. i\<lparr>isReserved := False, reservedBy := None\<rparr>) (items d)"
  have f: "findUnique_item itemId (items d) = Some it"
    using assms(2) by (rule findUnique_item_include_Some)
  have c: "snd ?u = 0"
    using updateMany_count_key[OF assms(1)[unfolded pk_items_def] f,
        of "\<lambda>i. reservedBy i = ident \<and> isReserved i = True"] assms(3) False
    by auto
  have t: "fst ?u = items d" using c by (rule updateMany_noop)
  have "?u = (items d, 0)" using c t by (simp add: prod_eq_iff)
  then show ?thesis using assms(2) False by (simp add: unreserveItem_def)
qed

lemma unreserveItem_holder:
  assumes "pk_items d" and "findUnique_item_include itemId d = Some (it, w)"
    and "\<not> falsy ident" and "isReserved it" and "reservedBy it = ident"
  shows "unreserveItem itemId ident io d =
     (Inr (it\<lparr>isReserved := False, reservedBy := None\<rparr>),
      (case io of None \<Rightarrow> []
       | Some s \<Rightarrow> [emit_all s (''wishlist:'' @ wishlistId it)
                     (ITEM_UNRESERVED (wishlistId it) itemId False None)]),
      d\<lparr>items := map (\<lambda>i. if item_id i = itemId then i\<lparr>isReserved := False, reservedBy := None\<rparr> else i) (items d)\<rparr>)"
proof -
  let ?upd = "\<lambda>i::item. i\<lparr>isReserved := False, reservedBy := None\<rparr>"
  let ?u = "updateMany (\<lambda>i. item_id i = itemId \<and> reservedBy i = ident \<and> isReserved i = True) ?upd (items d)"
  let ?tbl = "map (\<lambda>i. if item_id i = itemId then ?upd i else i) (items d)"
  have f: "findUnique_item itemId (items d) = Some it"
    using assms(2) by (rule findUnique_item_include_Some)
  have c: "snd ?u = 1"
    using updateMany_count_key[OF assms(1)[unfolded pk_items_def] f,
        of "\<lambda>i. reservedBy i = ident \<and> isReserved i = True"] assms(4,5)
    by simp
  have t: "fst ?u = ?tbl"
    using updateMany_table_key[OF assms(1)[unfolded pk_items_def] f,
        of "\<lambda>i. reservedBy i = ident \<and> isReserved i = True"] assms(4,5)
    by simp
  have u: "?u = (?tbl, 1)" using c t by (simp add: prod_eq_iff)
  have g: "findUnique_item itemId ?tbl = Some (?upd it)"
    by (rule findUnique_item_update_key[OF f]) simp
  show ?thesis using assms(2,3) u g by (simp add: unreserveItem_def)
qed

text \<open>
  C4, as the code has it. On an existing item, unreserve fails with the error
  \<open>Only the person who reserved can unreserve\<close>, which the route answers with status
  403, both when the requester identity is empty or unset and when the conditional
  update (clear both fields only if the item is reserved by that identity) rewrote no
  row: the two failures are the same error, and the store is unchanged. Otherwise the
  call succeeds and the stored item has \<open>isReserved = False\<close> and \<open>reservedBy = None\<close>.
\<close>

theorem unreserve_outcomes:
  assumes "pk_items d" and "findUnique_item_include itemId d = Some (it, w)"
  shows
    "let upd = (\<lambda>i. i\<lparr>isReserved := False, reservedBy := None\<rparr>);
         count = snd (updateMany
                   (\<lambda>i. item_id i = itemId \<and> reservedBy i = ident \<and> isReserved i = True) upd (items d));
         res = unreserveItem itemId ident io d;
         denied = Error ''Only the person who reserved can unreserve''
     in (falsy ident \<longrightarrow> res = (Inl denied, [], d))
      \<and> (\<not> falsy ident \<longrightarrow>
            (count = 0 \<longleftrightarrow> \<not> (isReserved it \<and> reservedBy it = ident))
          \<and> (count = 0 \<longrightarrow> res = (Inl denied, [], d))
          \<and> (count \<noteq> 0 \<longrightarrow>
                fst res = Inr (upd it)
              \<and> findUnique_item itemId (items (snd (snd res))) = Some (upd it)))
      \<and> (\<forall>req s. param_id req = itemId \<and> identity_of (user req) (nickname req) = ident \<longrightarrow>
            fst (unreserve_route req s d)
              = (if falsy ident \<or> count = 0
                 then \<lparr>status = 403, json = ErrorJson denied\<rparr>
                 else \<lparr>status = 200, json = MessageJson ''Item unreserved''\<rparr>))"
proof -
  let ?upd = "\<lambda>i::item. i\<lparr>isReserved := False, reservedBy := None\<rparr>"
  let ?count = "snd (updateMany
                   (\<lambda>i. item_id i = itemId \<and> reservedBy i = ident \<and> isReserved i = True) ?upd (items d))"
  have f: "findUnique_item itemId (items d) = Some it"
    using assms(2) by (rule findUnique_item_include_Some)
  have c: "?count = (if isReserved it \<and> reservedBy it = ident then 1 else 0)"
    using updateMany_count_key[OF assms(1)[unfolded pk_items_def] f,
        of "\<lambda>i. reservedBy i = ident \<and> isReserved i = True"]
    by auto
  show ?thesis
  proof (cases "falsy ident \<or> \<not> (isReserved it \<and> reservedBy it = ident)")
    case True
    have r: "\<And>io. unreserveItem itemId ident io d
         = (Inl (Error ''Only the person who reserved can unreserve''), [], d)"
      using assms True by (rule unreserveItem_denied)
    have "\<And>req s. param_id req = itemId \<Longrightarrow> identity_of (user req) (nickname req) = ident
            \<Longrightarrow> fst (unreserve_route req s d)
                = \<lparr>status = 403, json = ErrorJson (Error ''Only the person who reserved can unreserve'')\<rparr>"
      using r by (simp add: unreserve_route_def)
    then show ?thesis using c True r by (auto simp: Let_def)
  next
    case False
    let ?tbl = "map (\<lambda>i. if item_id i = itemId then ?upd i else i) (items d)"
    have r: "\<And>io. unreserveItem itemId ident io d =
       (Inr (?upd it),
        (case io of None \<Rightarrow> []
         | Some s \<Rightarrow> [emit_all s (''wishlist:'' @ wishlistId it)
                       (ITEM_UNRESERVED (wishlistId it) itemId False None)]),
        d\<lparr>items := ?tbl\<rparr>)"
      using assms False by (intro unreserveItem_holder) auto
    have g: "findUnique_item itemId ?tbl = Some (?upd it)"
      by (rule findUnique_item_update_key[OF f]) simp
    have "\<And>req s. param_id req = itemId \<Longrightarrow> identity_of (user req) (nickname req) = ident
            \<Longrightarrow> fst (unreserve_route req s d) = \<lparr>status = 200, json = MessageJson ''Item unreserved''\<rparr>"
      using r by (simp add: unreserve_route_def)
    then show ?thesis using c False r g by (auto simp: Let_def)
  qed
qed

theorem unreserve_outcomes_witness:
  "pk_items ex_db_kim
   \<and> findUnique_item_include ex_id ex_db_kim
       = Some (ex_item\<lparr>isReserved := True, reservedBy := Some ''Kim''\<rparr>, Some ex_wishlist)
   \<and> fst (unreserveItem ex_id (Some ''Kim'') (Some ex_io) ex_db_kim) = Inr ex_item
   \<and> findUnique_item ex_id (items (snd (snd (unreserveItem ex_id (Some ''Kim'') (Some ex_io) ex_db_kim))))
       = Some ex_item
   \<and> fst (unreserve_route (guest ''Kim'') ex_io ex_db_kim)
       = \<lparr>status = 200, json = MessageJson ''Item unreserved''\<rparr>"
proof -
  have h1: "pk_items ex_db_kim" by (simp add: pk_items_def ex_defs)
  have h2: "findUnique_item_include ex_id ex_db_kim
       = Some (ex_item\<lparr>isReserved := True, reservedBy := Some ''Kim''\<rparr>, Some ex_wishlist)"
    by (simp add: ex_defs route_defs)
  have c: "snd (updateMany
             (\<lambda>i. item_id i = ex_id \<and> reservedBy i = Some ''Kim'' \<and> isReserved i = True)
             (\<lambda>i. i\<lparr>isReserved := False, reservedBy := None\<rparr>) (items ex_db_kim)) = 1"
    by (simp add: ex_defs route_defs)
  have e: "ex_item\<lparr>isReserved := True, reservedBy := Some ''Kim'', isReserved := False, reservedBy := None\<rparr> = ex_item"
    by (simp add: ex_defs)
  have p: "param_id (guest ''Kim'') = ex_id \<and> identity_of (user (guest ''Kim'')) (nickname (guest ''Kim'')) = Some ''Kim''"
    by (simp add: ex_defs route_defs)
  show ?thesis
    using h1 h2 c e p unreserve_outcomes [OF h1 h2, of "Some ''Kim''" "Some ex_io"]
    by (simp add: Let_def falsy_def)
qed

text \<open>
  Lee asks to release the item that Kim holds: the conditional update rewrites no row,
  and the answer is the 403 of a request without identity, not a conflict of its own.
\<close>

theorem unreserve_non_holder_is_forbidden:
  "snd (updateMany
         (\<lambda>i. item_id i = ex_id \<and> reservedBy i = Some ''Lee'' \<and> isReserved i = True)
         (\<lambda>i. i\<lparr>isReserved := False, reservedBy := None\<rparr>) (items ex_db_kim)) = 0
   \<and> fst (unreserve_route (guest ''Lee'') ex_io ex_db_kim)
       = \<lparr>status = 403, json = ErrorJson (Error ''Only the person who reserved can unreserve'')\<rparr>
   \<and> unreserve_route (guest ''Lee'') ex_io ex_db_kim = unreserve_route anonymous ex_io ex_db_kim"
  by (simp add: ex_defs route_defs)

section \<open>Contributions\<close>

lemma contribute_body_reserved:
  assumes "findUnique_item_include (b_itemId (c_body req)) d = Some (it, Some wl)" and "isReserved it"
  shows "contribute_body req name newId now d =
     (Inl (if map_option user_id (c_user req) = Some (ownerId wl)
           then Error ''Cannot contribute to your own items''
           else Error ''Item is already reserved/fully funded''), d)"
  using assms by (simp add: contribute_body_def)

lemma increment_collected_found:
  assumes "findUnique_item k tbl = Some i" and "store_decimal (collectedAmount i + a) = Some c"
  shows "increment_collected k a tbl =
     Inr (i\<lparr>collectedAmount := c\<rparr>,
          map (\<lambda>j. if item_id j = k then j\<lparr>collectedAmount := round30 (collectedAmount j + a)\<rparr> else j) tbl)"
  using assms by (simp add: increment_collected_def)

lemma contribute_body_accepts:
  assumes "findUnique_item_include (b_itemId (c_body req)) d = Some (it, Some wl)"
    and "map_option user_id (c_user req) \<noteq> Some (ownerId wl)"
    and "\<not> isReserved it"
    and "newId \<notin> set (map contrib_id (contributions d))"
    and "store_decimal (b_amount (c_body req)) = Some a"
    and "store_decimal (collectedAmount it + b_amount (c_body req)) = Some c"
  shows "contribute_body req name newId now d =
     (Inr \<lparr>r_contribution =
             \<lparr>contrib_id = newId, c_itemId = b_itemId (c_body req),
              c_userId = (case c_user req of None \<Rightarrow> None
                          | Some u \<Rightarrow> if user_id u = [] then None else Some (user_id u)),
              contributorName = name, amount = a,
              message = b_message (c_body req), c_createdAt = now\<rparr>,
            r_wishlistId = wishlistId it, r_itemId = b_itemId (c_body req),
            newCollected = to_double c,
            isFullyFunded = funded (it\<lparr>collectedAmount := c\<rparr>)\<rparr>,
      d\<lparr>contributions := contributions d @
            [\<lparr>contrib_id = newId, c_itemId = b_itemId (c_body req),
              c_userId = (case c_user req of None \<Rightarrow> None
                          | Some u \<Rightarrow> if user_id u = [] then None else Some (user_id u)),
              contributorName = name, amount = a,
              message = b_message (c_body req), c_createdAt = now\<rparr>],
         items := map (\<lambda>j. if item_id j = b_itemId (c_body req)
                            then (if funded (it\<lparr>collectedAmount := c\<rparr>)
                                  then j\<lparr>collectedAmount := round30 (collectedAmount j + b_amount (c_body req)),
                                         isReserved := True, reservedBy := Some ''Group contribution''\<rparr>
                                  else j\<lparr>collectedAmount := round30 (collectedAmount j + b_amount (c_body req))\<rparr>)
                            else j) (items d)\<rparr>)"
proof -
  let ?k = "b_itemId (c_body req)"
  let ?a = "b_amount (c_body req)"
  let ?inc = "\<lambda>i::item. i\<lparr>collectedAmount := round30 (collectedAmount i + ?a)\<rparr>"
  let ?res = "\<lambda>i::item. i\<lparr>isReserved := True, reservedBy := Some ''Group contribution''\<rparr>"
  let ?tbl1 = "map (\<lambda>j. if item_id j = ?k then ?inc j else j) (items d)"
  let ?u = "it\<lparr>collectedAmount := c\<rparr>"
  have f: "findUnique_item ?k (items d) = Some it"
    using assms(1) by (rule findUnique_item_include_Some)
  have k: "item_id it = ?k" using findUnique_item_Some[OF f] by simp
  have c: "c = round30 (collectedAmount it + ?a)" using assms(6) by (rule store_decimal_round30)
  have u1: "increment_collected (item_id it) ?a (items d) = Inr (?u, ?tbl1)"
    using increment_collected_found[OF f assms(6)] k by simp
  have g: "findUnique_item ?k ?tbl1 = Some (?inc it)"
    by (rule findUnique_item_update_key[OF f]) simp
  have m: "map (\<lambda>j. if item_id j = ?k then ?res j else j) ?tbl1
           = map (\<lambda>j. if item_id j = ?k then ?res (?inc j) else j) (items d)"
    by (simp add: comp_def)
  have u2: "update_item (item_id it) ?res ?tbl1
            = Inr (?res (?inc it), map (\<lambda>j. if item_id j = ?k then ?res (?inc j) else j) (items d))"
    unfolding m[symmetric] using g k by (simp add: update_item_def)
  show ?thesis
  proof (cases "price it")
    case None
    then show ?thesis
      using assms u1 k
      by (simp add: contribute_body_def Let_def funded_def del: map_option_eq_Some)
  next
    case (Some p)
    then show ?thesis
      using assms u1 u2 k
      by (cases "to_double p \<le> to_double c")
         (simp_all add: contribute_body_def Let_def funded_def del: map_option_eq_Some)
  qed
qed

lemma contribute_body_Inr:
  assumes "fst (contribute_body req name newId now d) = Inr r"
  shows "\<exists>it wl a c. findUnique_item_include (b_itemId (c_body req)) d = Some (it, Some wl)
           \<and> map_option user_id (c_user req) \<noteq> Some (ownerId wl)
           \<and> \<not> isReserved it
           \<and> newId \<notin> set (map contrib_id (contributions d))
           \<and> store_decimal (b_amount (c_body req)) = Some a
           \<and> store_decimal (collectedAmount it + b_amount (c_body req)) = Some c"
proof (cases "findUnique_item_include (b_itemId (c_body req)) d")
  case None
  then show ?thesis using assms by (simp add: contribute_body_def)
next
  case (Some p)
  obtain it w where p: "p = (it, w)" by (cases p)
  show ?thesis
  proof (cases w)
    case None
    then show ?thesis using assms Some p by (simp add: contribute_body_def)
  next
    case (Some wl)
    note inc = \<open>findUnique_item_include (b_itemId (c_body req)) d = Some p\<close>
    have f: "findUnique_item (b_itemId (c_body req)) (items d) = Some it"
      using inc p by (auto dest: findUnique_item_include_Some)
    have k: "item_id it = b_itemId (c_body req)" using findUnique_item_Some[OF f] by simp
    have a: "map_option user_id (c_user req) \<noteq> Some (ownerId wl)"
    proof
      assume "map_option user_id (c_user req) = Some (ownerId wl)"
      then show False using assms inc p Some by (simp add: contribute_body_def del: map_option_eq_Some)
    qed
    have b: "\<not> isReserved it"
    proof
      assume "isReserved it"
      then show False using assms inc p Some a by (simp add: contribute_body_def del: map_option_eq_Some)
    qed
    obtain am where am: "store_decimal (b_amount (c_body req)) = Some am"
    proof (cases "store_decimal (b_amount (c_body req))")
      case None
      then have False using assms inc p Some a b
        by (simp add: contribute_body_def del: map_option_eq_Some)
      then show ?thesis ..
    next
      case (Some x)
      then show ?thesis using that by blast
    qed
    have c: "newId \<notin> set (map contrib_id (contributions d))"
    proof
      assume "newId \<in> set (map contrib_id (contributions d))"
      then show False using assms inc p Some a b am
        by (simp add: contribute_body_def del: map_option_eq_Some)
    qed
    obtain cc where cc: "store_decimal (collectedAmount it + b_amount (c_body req)) = Some cc"
    proof (cases "store_decimal (collectedAmount it + b_amount (c_body req))")
      case None
      then have "increment_collected (item_id it) (b_amount (c_body req)) (items d) = Inl NumericOverflow"
        using f k by (simp add: increment_collected_def)
      then have False using assms inc p Some a b am c
        by (simp add: contribute_body_def Let_def del: map_option_eq_Some)
      then show ?thesis ..
    next
      case (Some x)
      then show ?thesis using that by blast
    qed
    show ?thesis
      using inc p Some a b c am cc by blast
  qed
qed

text \<open>
  C5. A contribution to an item that is reserved fails, leaves the store as it was (no
  contribution row, no increment) and emits nothing. For a request that passes
  validation, carries an identity and does not come from the authenticated owner of the
  wishlist, the failure is \<open>Item is already reserved/fully funded\<close> (status 400); the
  owner gets the answer of the owner check, which comes first
  (\<open>Cannot contribute to your own items\<close>, status 403).
\<close>

theorem contribute_on_reserved_item:
  assumes "findUnique_item_include (b_itemId (c_body req)) d = Some (it, Some wl)"
    and "isReserved it"
  shows
    "let res = contribution_route req io newId now d
     in snd (snd res) = d \<and> fst (snd res) = [] \<and> status (fst res) \<noteq> 200
      \<and> (contributionSchema_ok (c_body req)
           \<and> \<not> falsy (identity_of (c_user req) (b_nickname (c_body req))) \<longrightarrow>
          fst res =
            (if map_option user_id (c_user req) = Some (ownerId wl)
             then \<lparr>status = 403, json = ErrorJson (Error ''Cannot contribute to your own items'')\<rparr>
             else \<lparr>status = 400, json = ErrorJson (Error ''Item is already reserved/fully funded'')\<rparr>))"
proof -
  have b: "\<And>name. contribute_body req name newId now d =
     (Inl (if map_option user_id (c_user req) = Some (ownerId wl)
           then Error ''Cannot contribute to your own items''
           else Error ''Item is already reserved/fully funded''), d)"
    using assms by (rule contribute_body_reserved)
  show ?thesis
    by (simp add: contribution_route_def transaction_def Let_def falsy_def b
          split: option.splits del: map_option_eq_Some)
qed

theorem contribute_on_reserved_item_witness:
  "findUnique_item_include (b_itemId (c_body (guest_contribution ''Sam'' 30))) ex_db_kim
     = Some (ex_item\<lparr>isReserved := True, reservedBy := Some ''Kim''\<rparr>, Some ex_wishlist)
   \<and> isReserved (ex_item\<lparr>isReserved := True, reservedBy := Some ''Kim''\<rparr>)
   \<and> contribution_route (guest_contribution ''Sam'' 30) ex_io ''c1'' 5 ex_db_kim
     = (\<lparr>status = 400, json = ErrorJson (Error ''Item is already reserved/fully funded'')\<rparr>, [], ex_db_kim)"
proof -
  have h1: "findUnique_item_include (b_itemId (c_body (guest_contribution ''Sam'' 30))) ex_db_kim
     = Some (ex_item\<lparr>isReserved := True, reservedBy := Some ''Kim''\<rparr>, Some ex_wishlist)"
    by (simp add: ex_defs route_defs)
  have h2: "isReserved (ex_item\<lparr>isReserved := True, reservedBy := Some ''Kim''\<rparr>)" by simp
  have v: "contributionSchema_ok (c_body (guest_contribution ''Sam'' 30))
           \<and> \<not> falsy (identity_of (c_user (guest_contribution ''Sam'' 30))
                        (b_nickname (c_body (guest_contribution ''Sam'' 30))))
           \<and> map_option user_id (c_user (guest_contribution ''Sam'' 30)) \<noteq> Some (ownerId ex_wishlist)"
    by (simp add: ex_defs route_defs)
  show ?thesis
    using h1 h2 v contribute_on_reserved_item [OF h1 h2, of ex_io "''c1''" 5]
    by (simp add: Let_def prod_eq_iff)
qed

section \<open>The owner check and guests\<close>

lemma reserveItem_guest_not_owner_error:
  "fst (reserveItem k label None io d) \<noteq> Inl (Error ''Cannot reserve your own items'')"
proof -
  obtain r out d' where res: "reserveItem k label None io d = (r, out, d')"
    by (cases "reserveItem k label None io d") auto
  have "r \<noteq> Inl (Error ''Cannot reserve your own items'')"
    using res
    by (auto simp: reserveItem_def Let_def split_beta split: option.splits if_splits)
  then show ?thesis using res by simp
qed

lemma contribute_body_guest_not_owner_error:
  assumes "c_user req = None"
  shows "fst (contribute_body req name newId now d) \<noteq> Inl (Error ''Cannot contribute to your own items'')"
proof (cases "findUnique_item_include (b_itemId (c_body req)) d")
  case None
  then show ?thesis by (simp add: contribute_body_def)
next
  case (Some p)
  obtain it w where p: "p = (it, w)" by (cases p)
  show ?thesis
  proof (cases w)
    case None
    then show ?thesis using Some p by (simp add: contribute_body_def)
  next
    case (Some wl)
    note inc = \<open>findUnique_item_include (b_itemId (c_body req)) d = Some p\<close>
    have f: "findUnique_item (b_itemId (c_body req)) (items d) = Some it"
      using inc p by (auto dest: findUnique_item_include_Some)
    have k: "item_id it = b_itemId (c_body req)" using findUnique_item_Some[OF f] by simp
    have no: "map_option user_id (c_user req) \<noteq> Some (ownerId wl)" using assms by simp
    show ?thesis
    proof (cases "isReserved it \<or> newId \<in> set (map contrib_id (contributions d))
                  \<or> store_decimal (b_amount (c_body req)) = None")
      case True
      then show ?thesis using inc p Some assms
        by (auto simp: contribute_body_def split: option.splits)
    next
      case False
      then obtain a where a: "store_decimal (b_amount (c_body req)) = Some a" by auto
      show ?thesis
      proof (cases "store_decimal (collectedAmount it + b_amount (c_body req))")
        case None
        then have "increment_collected (item_id it) (b_amount (c_body req)) (items d) = Inl NumericOverflow"
          using f k by (simp add: increment_collected_def)
        then show ?thesis using inc p Some assms False a
          by (simp add: contribute_body_def Let_def)
      next
        case (Some c)
        from contribute_body_accepts[OF inc[unfolded p \<open>w = Some wl\<close>] no _ _ a Some, of newId name now] False
        show ?thesis by simp
      qed
    qed
  qed
qed

text \<open>
  C10. The owner check of reserve and contribute compares \<open>req.user?.id\<close> with the
  owner of the wishlist and never looks at the nickname. So a request without an
  authenticated user is never answered with the owner's 403, and such a request with a
  nickname, whatever the nickname (the owner's own id included), reserves an unreserved
  item, or contributes to it (an amount that fits the decimal columns), like any other
  guest's.
\<close>

theorem guest_requests_skip_owner_check:
  "(user req = None \<longrightarrow> status (fst (reserve_route req io d)) \<noteq> 403)
   \<and> (c_user creq = None \<longrightarrow> status (fst (contribution_route creq io newId now d)) \<noteq> 403)
   \<and> (user req = None \<and> nickname req = Some n \<and> n \<noteq> [] \<and> pk_items d
        \<and> findUnique_item_include (param_id req) d = Some (it, Some wl) \<and> \<not> isReserved it \<longrightarrow>
         fst (reserve_route req io d) = \<lparr>status = 200, json = MessageJson ''Item reserved!''\<rparr>
       \<and> findUnique_item (param_id req) (items (snd (snd (reserve_route req io d))))
           = Some (it\<lparr>isReserved := True, reservedBy := Some n\<rparr>))
   \<and> (c_user creq = None \<and> b_nickname (c_body creq) = Some n \<and> n \<noteq> []
        \<and> contributionSchema_ok (c_body creq)
        \<and> findUnique_item_include (b_itemId (c_body creq)) d = Some (it, Some wl) \<and> \<not> isReserved it
        \<and> newId \<notin> set (map contrib_id (contributions d))
        \<and> store_decimal (b_amount (c_body creq)) \<noteq> None
        \<and> store_decimal (collectedAmount it + b_amount (c_body creq)) \<noteq> None \<longrightarrow>
         status (fst (contribution_route creq io newId now d)) = 200
       \<and> map contributorName (contributions (snd (snd (contribution_route creq io newId now d))))
           = map contributorName (contributions d) @ [n])"
proof (intro conjI impI)
  assume u: "user req = None"
  show "status (fst (reserve_route req io d)) \<noteq> 403"
  proof (cases "nickname req")
    case None
    then show ?thesis using u by (simp add: reserve_route_def identity_of_def)
  next
    case (Some label)
    obtain r out d' where res: "reserveItem (param_id req) label None (Some io) d = (r, out, d')"
      by (cases "reserveItem (param_id req) label None (Some io) d") auto
    have "r \<noteq> Inl (Error ''Cannot reserve your own items'')"
      using reserveItem_guest_not_owner_error[of "param_id req" label "Some io" d] res by simp
    then show ?thesis using u Some res
      by (cases r) (auto simp: reserve_route_def identity_of_def)
  qed
next
  assume u: "c_user creq = None"
  show "status (fst (contribution_route creq io newId now d)) \<noteq> 403"
  proof -
    have "\<And>name. fst (contribute_body creq name newId now d) \<noteq> Inl (Error ''Cannot contribute to your own items'')"
      using u by (rule contribute_body_guest_not_owner_error)
    then have "\<And>name. fst (transaction (contribute_body creq name newId now) d)
                 \<noteq> Inl (Error ''Cannot contribute to your own items'')"
      by (auto simp: transaction_def split: prod.splits sum.splits) (metis fst_conv)
    then show ?thesis
      by (auto simp: contribution_route_def Let_def split: option.splits prod.splits sum.splits)
         (metis fst_conv)
  qed
next
  assume a: "user req = None \<and> nickname req = Some n \<and> n \<noteq> [] \<and> pk_items d
        \<and> findUnique_item_include (param_id req) d = Some (it, Some wl) \<and> \<not> isReserved it"
  have r: "reserveItem (param_id req) n None (Some io) d =
     (Inr (it\<lparr>isReserved := True, reservedBy := Some n\<rparr>),
      [emit_all io (''wishlist:'' @ wishlistId it)
         (ITEM_RESERVED (wishlistId it) (param_id req) True (Some n))],
      d\<lparr>items := map (\<lambda>i. if item_id i = param_id req then i\<lparr>isReserved := True, reservedBy := Some n\<rparr> else i) (items d)\<rparr>)"
    using reserveItem_free[of d "param_id req" it wl None n "Some io"] a by simp
  have f: "findUnique_item (param_id req) (items d) = Some it"
    using a by (auto dest: findUnique_item_include_Some)
  have g: "findUnique_item (param_id req)
             (map (\<lambda>i. if item_id i = param_id req then i\<lparr>isReserved := True, reservedBy := Some n\<rparr> else i) (items d))
           = Some (it\<lparr>isReserved := True, reservedBy := Some n\<rparr>)"
    by (rule findUnique_item_update_key[OF f]) simp
  show "fst (reserve_route req io d) = \<lparr>status = 200, json = MessageJson ''Item reserved!''\<rparr>"
    using a r by (simp add: reserve_route_def identity_of_def)
  show "findUnique_item (param_id req) (items (snd (snd (reserve_route req io d))))
           = Some (it\<lparr>isReserved := True, reservedBy := Some n\<rparr>)"
    using a r g by (simp add: reserve_route_def identity_of_def)
next
  assume a: "c_user creq = None \<and> b_nickname (c_body creq) = Some n \<and> n \<noteq> []
        \<and> contributionSchema_ok (c_body creq)
        \<and> findUnique_item_include (b_itemId (c_body creq)) d = Some (it, Some wl) \<and> \<not> isReserved it
        \<and> newId \<notin> set (map contrib_id (contributions d))
        \<and> store_decimal (b_amount (c_body creq)) \<noteq> None
        \<and> store_decimal (collectedAmount it + b_amount (c_body creq)) \<noteq> None"
  have no: "map_option user_id (c_user creq) \<noteq> Some (ownerId wl)" using a by simp
  obtain am cc where st: "store_decimal (b_amount (c_body creq)) = Some am"
    "store_decimal (collectedAmount it + b_amount (c_body creq)) = Some cc"
    using a by auto
  note acc = contribute_body_accepts[of creq d it wl newId am cc n now]
  show "status (fst (contribution_route creq io newId now d)) = 200"
    using a acc no st by (simp add: contribution_route_def transaction_def identity_of_def Let_def)
  show "map contributorName (contributions (snd (snd (contribution_route creq io newId now d))))
           = map contributorName (contributions d) @ [n]"
    using a acc no st by (simp add: contribution_route_def transaction_def identity_of_def Let_def)
qed

theorem guest_requests_skip_owner_check_witness:
  "user (guest ''u1'') = None \<and> nickname (guest ''u1'') = Some ''u1'' \<and> ownerId ex_wishlist = ''u1''
   \<and> pk_items ex_db
   \<and> findUnique_item_include (param_id (guest ''u1'')) ex_db = Some (ex_item, Some ex_wishlist)
   \<and> \<not> isReserved ex_item
   \<and> fst (reserve_route (guest ''u1'') ex_io ex_db) = \<lparr>status = 200, json = MessageJson ''Item reserved!''\<rparr>
   \<and> c_user (guest_contribution ''u1'' 30) = None
   \<and> status (fst (contribution_route (guest_contribution ''u1'' 30) ex_io ''c1'' 5 ex_db)) = 200"
proof -
  have h: "user (guest ''u1'') = None \<and> nickname (guest ''u1'') = Some ''u1'' \<and> ''u1'' \<noteq> [] \<and> pk_items ex_db
        \<and> findUnique_item_include (param_id (guest ''u1'')) ex_db = Some (ex_item, Some ex_wishlist)
        \<and> \<not> isReserved ex_item"
    by (simp add: ex_defs route_defs pk_items_def)
  have h': "c_user (guest_contribution ''u1'' 30) = None
        \<and> b_nickname (c_body (guest_contribution ''u1'' 30)) = Some ''u1'' \<and> ''u1'' \<noteq> []
        \<and> contributionSchema_ok (c_body (guest_contribution ''u1'' 30))
        \<and> findUnique_item_include (b_itemId (c_body (guest_contribution ''u1'' 30))) ex_db
            = Some (ex_item, Some ex_wishlist)
        \<and> \<not> isReserved ex_item
        \<and> ''c1'' \<notin> set (map contrib_id (contributions ex_db))
        \<and> store_decimal (b_amount (c_body (guest_contribution ''u1'' 30))) \<noteq> None
        \<and> store_decimal (collectedAmount ex_item + b_amount (c_body (guest_contribution ''u1'' 30))) \<noteq> None"
    by (simp add: ex_defs route_defs)
  have o: "ownerId ex_wishlist = ''u1''" by (simp add: ex_defs)
  show ?thesis
    using h h' o
      guest_requests_skip_owner_check [of "guest ''u1''" ex_io ex_db "guest_contribution ''u1'' 30" "''c1''" 5
        "''u1''" ex_item ex_wishlist]
    by blast
qed

section \<open>The rows a request rewrites\<close>

text \<open>
  Every mutation request rewrites the item table row by row; the lemmas below name the
  row function of each route.
\<close>

lemma reserve_route_rows:
  "snd (snd (reserve_route req io d)) = d
   \<or> (\<exists>label. snd (snd (reserve_route req io d)) =
         d\<lparr>items := map (\<lambda>i. if item_id i = param_id req \<and> isReserved i = False
                               then i\<lparr>isReserved := True, reservedBy := Some label\<rparr> else i) (items d)\<rparr>)"
proof (cases "identity_of (user req) (nickname req)")
  case None
  then show ?thesis by (simp add: reserve_route_def)
next
  case (Some label)
  show ?thesis
  proof (cases "label = []")
    case True
    then show ?thesis using Some by (simp add: reserve_route_def)
  next
    case False
    obtain r out d' where res:
      "reserveItem (param_id req) label (map_option user_id (user req)) (Some io) d = (r, out, d')"
      by (cases "reserveItem (param_id req) label (map_option user_id (user req)) (Some io) d") auto
    have "snd (snd (reserve_route req io d)) = d'"
      using Some False res by (auto simp: reserve_route_def split: sum.splits)
    then show ?thesis using reserveItem_cases[OF res] by (auto simp: updateMany_def)
  qed
qed

lemma unreserve_route_rows:
  "snd (snd (unreserve_route req io d)) = d
   \<or> snd (snd (unreserve_route req io d)) =
         d\<lparr>items := map (\<lambda>i. if item_id i = param_id req
                                  \<and> reservedBy i = identity_of (user req) (nickname req)
                                  \<and> isReserved i = True
                               then i\<lparr>isReserved := False, reservedBy := None\<rparr> else i) (items d)\<rparr>"
proof -
  obtain r out d' where res:
    "unreserveItem (param_id req) (identity_of (user req) (nickname req)) (Some io) d = (r, out, d')"
    by (cases "unreserveItem (param_id req) (identity_of (user req) (nickname req)) (Some io) d") auto
  have "snd (snd (unreserve_route req io d)) = d'"
    using res by (auto simp: unreserve_route_def split: sum.splits)
  then show ?thesis using unreserveItem_cases[OF res] by (auto simp: updateMany_def)
qed

lemma contribution_route_accepted:
  assumes "status (fst (contribution_route req io newId now d)) = 200"
  shows "\<exists>it c cc. findUnique_item (b_itemId (c_body req)) (items d) = Some it \<and> \<not> isReserved it
        \<and> c_itemId c = b_itemId (c_body req) \<and> amount c = round30 (b_amount (c_body req))
        \<and> cc = round30 (collectedAmount it + b_amount (c_body req))
        \<and> snd (snd (contribution_route req io newId now d)) =
         d\<lparr>contributions := contributions d @ [c],
           items := map (\<lambda>j. if item_id j = b_itemId (c_body req)
                            then (if funded (it\<lparr>collectedAmount := cc\<rparr>)
                                  then j\<lparr>collectedAmount := round30 (collectedAmount j + b_amount (c_body req)),
                                         isReserved := True, reservedBy := Some ''Group contribution''\<rparr>
                                  else j\<lparr>collectedAmount := round30 (collectedAmount j + b_amount (c_body req))\<rparr>)
                            else j) (items d)\<rparr>"
proof -
  obtain name where n: "identity_of (c_user req) (b_nickname (c_body req)) = Some name" "name \<noteq> []"
    and ok: "contributionSchema_ok (c_body req)"
    using assms by (auto simp: contribution_route_def Let_def split: option.splits if_splits)
  obtain r d' where b: "contribute_body req name newId now d = (r, d')"
    by (cases "contribute_body req name newId now d") auto
  have "\<exists>x. r = Inr x"
    using assms n ok b
    by (cases r) (auto simp: contribution_route_def transaction_def Let_def split: if_splits)
  then obtain x where x: "r = Inr x" by blast
  from contribute_body_Inr[of req name newId now d x] b x
  obtain it wl am cc where pre:
    "findUnique_item_include (b_itemId (c_body req)) d = Some (it, Some wl)"
    "map_option user_id (c_user req) \<noteq> Some (ownerId wl)"
    "\<not> isReserved it"
    "newId \<notin> set (map contrib_id (contributions d))"
    "store_decimal (b_amount (c_body req)) = Some am"
    "store_decimal (collectedAmount it + b_amount (c_body req)) = Some cc"
    by auto
  note acc = contribute_body_accepts[OF pre, of name now]
  have f: "findUnique_item (b_itemId (c_body req)) (items d) = Some it"
    using pre(1) by (rule findUnique_item_include_Some)
  have am: "am = round30 (b_amount (c_body req))" using pre(5) by (rule store_decimal_round30)
  have cc: "cc = round30 (collectedAmount it + b_amount (c_body req))"
    using pre(6) by (rule store_decimal_round30)
  have "snd (snd (contribution_route req io newId now d)) = snd (contribute_body req name newId now d)"
    using n ok acc by (simp add: contribution_route_def transaction_def Let_def)
  then have "snd (snd (contribution_route req io newId now d)) =
      d\<lparr>contributions := contributions d @
            [\<lparr>contrib_id = newId, c_itemId = b_itemId (c_body req),
              c_userId = (case c_user req of None \<Rightarrow> None
                          | Some u \<Rightarrow> if user_id u = [] then None else Some (user_id u)),
              contributorName = name, amount = am,
              message = b_message (c_body req), c_createdAt = now\<rparr>],
         items := map (\<lambda>j. if item_id j = b_itemId (c_body req)
                            then (if funded (it\<lparr>collectedAmount := cc\<rparr>)
                                  then j\<lparr>collectedAmount := round30 (collectedAmount j + b_amount (c_body req)),
                                         isReserved := True, reservedBy := Some ''Group contribution''\<rparr>
                                  else j\<lparr>collectedAmount := round30 (collectedAmount j + b_amount (c_body req))\<rparr>)
                            else j) (items d)\<rparr>"
    using acc by simp
  then show ?thesis using f pre(3) am cc
    by (intro exI[of _ it]
          exI[of _ "\<lparr>contrib_id = newId, c_itemId = b_itemId (c_body req),
              c_userId = (case c_user req of None \<Rightarrow> None
                          | Some u \<Rightarrow> if user_id u = [] then None else Some (user_id u)),
              contributorName = name, amount = am,
              message = b_message (c_body req), c_createdAt = now\<rparr>"] exI[of _ cc]) simp
qed

lemma contribution_route_rows:
  "snd (snd (contribution_route req io newId now d)) = d
   \<or> (\<exists>it c cc. findUnique_item (b_itemId (c_body req)) (items d) = Some it \<and> \<not> isReserved it
        \<and> c_itemId c = b_itemId (c_body req) \<and> amount c = round30 (b_amount (c_body req))
        \<and> cc = round30 (collectedAmount it + b_amount (c_body req))
        \<and> snd (snd (contribution_route req io newId now d)) =
         d\<lparr>contributions := contributions d @ [c],
           items := map (\<lambda>j. if item_id j = b_itemId (c_body req)
                            then (if funded (it\<lparr>collectedAmount := cc\<rparr>)
                                  then j\<lparr>collectedAmount := round30 (collectedAmount j + b_amount (c_body req)),
                                         isReserved := True, reservedBy := Some ''Group contribution''\<rparr>
                                  else j\<lparr>collectedAmount := round30 (collectedAmount j + b_amount (c_body req))\<rparr>)
                            else j) (items d)\<rparr>)"
proof (cases "status (fst (contribution_route req io newId now d)) = 200")
  case False
  then show ?thesis by (simp add: contribution_route_failure)
next
  case True
  then show ?thesis by (intro disjI2 contribution_route_accepted)
qed

lemma hype_route_rows:
  "snd (snd (hype_route req io d)) = d
   \<or> snd (snd (hype_route req io d)) =
         d\<lparr>items := map (\<lambda>j. if item_id j = param_id req then j\<lparr>hypeCount := hypeCount j + 1\<rparr> else j)
                      (items d)\<rparr>"
  by (auto simp: hype_route_def hypeItem_def update_item_def split: option.splits)

lemma step_rows:
  "\<exists>f. items (db_after io x d) = map f (items d)
      \<and> (\<forall>i. item_id (f i) = item_id i)
      \<and> (\<forall>i. row_consistent i \<longrightarrow> row_consistent (f i))
      \<and> (\<not> unreserves_as ''Group contribution'' x \<longrightarrow> (\<forall>i. group_held i \<longrightarrow> group_held (f i)))
      \<and> (\<forall>i. \<not> isReserved i \<and> isReserved (f i) \<and> (\<exists>r n t. x = Contribute r n t) \<longrightarrow> group_held (f i))"
proof (cases x)
  case (Reserve req)
  from reserve_route_rows[of req io d] show ?thesis
  proof
    assume "snd (snd (reserve_route req io d)) = d"
    then show ?thesis using Reserve
      by (intro exI[of _ "\<lambda>i. i"]) (simp add: db_after_def)
  next
    assume "\<exists>label. snd (snd (reserve_route req io d)) =
         d\<lparr>items := map (\<lambda>i. if item_id i = param_id req \<and> isReserved i = False
                               then i\<lparr>isReserved := True, reservedBy := Some label\<rparr> else i) (items d)\<rparr>"
    then obtain label where "snd (snd (reserve_route req io d)) =
         d\<lparr>items := map (\<lambda>i. if item_id i = param_id req \<and> isReserved i = False
                               then i\<lparr>isReserved := True, reservedBy := Some label\<rparr> else i) (items d)\<rparr>"
      by blast
    then show ?thesis using Reserve
      by (intro exI[of _ "\<lambda>i. if item_id i = param_id req \<and> isReserved i = False
                               then i\<lparr>isReserved := True, reservedBy := Some label\<rparr> else i"])
         (simp add: db_after_def row_consistent_def group_held_def)
  qed
next
  case (Unreserve req)
  from unreserve_route_rows[of req io d] show ?thesis
  proof
    assume "snd (snd (unreserve_route req io d)) = d"
    then show ?thesis using Unreserve
      by (intro exI[of _ "\<lambda>i. i"]) (simp add: db_after_def)
  next
    assume "snd (snd (unreserve_route req io d)) =
         d\<lparr>items := map (\<lambda>i. if item_id i = param_id req
                                  \<and> reservedBy i = identity_of (user req) (nickname req)
                                  \<and> isReserved i = True
                               then i\<lparr>isReserved := False, reservedBy := None\<rparr> else i) (items d)\<rparr>"
    then show ?thesis using Unreserve
      by (intro exI[of _ "\<lambda>i. if item_id i = param_id req
                                  \<and> reservedBy i = identity_of (user req) (nickname req)
                                  \<and> isReserved i = True
                               then i\<lparr>isReserved := False, reservedBy := None\<rparr> else i"])
         (auto simp: db_after_def row_consistent_def group_held_def)
  qed
next
  case (Contribute req newId now)
  from contribution_route_rows[of req io newId now d] show ?thesis
  proof
    assume "snd (snd (contribution_route req io newId now d)) = d"
    then show ?thesis using Contribute
      by (intro exI[of _ "\<lambda>i. i"]) (simp add: db_after_def)
  next
    assume "\<exists>it c cc. findUnique_item (b_itemId (c_body req)) (items d) = Some it \<and> \<not> isReserved it
        \<and> c_itemId c = b_itemId (c_body req) \<and> amount c = round30 (b_amount (c_body req))
        \<and> cc = round30 (collectedAmount it + b_amount (c_body req))
        \<and> snd (snd (contribution_route req io newId now d)) =
         d\<lparr>contributions := contributions d @ [c],
           items := map (\<lambda>j. if item_id j = b_itemId (c_body req)
                            then (if funded (it\<lparr>collectedAmount := cc\<rparr>)
                                  then j\<lparr>collectedAmount := round30 (collectedAmount j + b_amount (c_body req)),
                                         isReserved := True, reservedBy := Some ''Group contribution''\<rparr>
                                  else j\<lparr>collectedAmount := round30 (collectedAmount j + b_amount (c_body req))\<rparr>)
                            else j) (items d)\<rparr>"
    then obtain it c cc where "snd (snd (contribution_route req io newId now d)) =
         d\<lparr>contributions := contributions d @ [c],
           items := map (\<lambda>j. if item_id j = b_itemId (c_body req)
                            then (if funded (it\<lparr>collectedAmount := cc\<rparr>)
                                  then j\<lparr>collectedAmount := round30 (collectedAmount j + b_amount (c_body req)),
                                         isReserved := True, reservedBy := Some ''Group contribution''\<rparr>
                                  else j\<lparr>collectedAmount := round30 (collectedAmount j + b_amount (c_body req))\<rparr>)
                            else j) (items d)\<rparr>"
      by blast
    then show ?thesis using Contribute
      by (intro exI[of _ "\<lambda>j. if item_id j = b_itemId (c_body req)
                            then (if funded (it\<lparr>collectedAmount := cc\<rparr>)
                                  then j\<lparr>collectedAmount := round30 (collectedAmount j + b_amount (c_body req)),
                                         isReserved := True, reservedBy := Some ''Group contribution''\<rparr>
                                  else j\<lparr>collectedAmount := round30 (collectedAmount j + b_amount (c_body req))\<rparr>)
                            else j"])
         (simp add: db_after_def row_consistent_def group_held_def)
  qed
next
  case (Hype req)
  from hype_route_rows[of req io d] show ?thesis
  proof
    assume "snd (snd (hype_route req io d)) = d"
    then show ?thesis using Hype
      by (intro exI[of _ "\<lambda>i. i"]) (simp add: db_after_def)
  next
    assume "snd (snd (hype_route req io d)) =
         d\<lparr>items := map (\<lambda>j. if item_id j = param_id req then j\<lparr>hypeCount := hypeCount j + 1\<rparr> else j)
                      (items d)\<rparr>"
    then show ?thesis using Hype
      by (intro exI[of _ "\<lambda>j. if item_id j = param_id req then j\<lparr>hypeCount := hypeCount j + 1\<rparr> else j"])
         (simp add: db_after_def row_consistent_def group_held_def)
  qed
qed

section \<open>The reservation fields stay consistent\<close>

lemma db_after_consistent:
  assumes "reserved_consistent d"
  shows "reserved_consistent (db_after io x d)"
proof -
  obtain f where f: "items (db_after io x d) = map f (items d)"
    and c: "\<forall>i. row_consistent i \<longrightarrow> row_consistent (f i)"
    using step_rows[of io x d] by blast
  show ?thesis using assms c unfolding reserved_consistent_def f
    by (simp add: list_all_iff)
qed

lemma run_consistent:
  "reserved_consistent d \<Longrightarrow> reserved_consistent (run io xs d)"
  by (induction xs arbitrary: d) (simp_all add: db_after_consistent)

lemma createItem_consistent:
  assumes "reserved_consistent d"
  shows "reserved_consistent (snd (snd (createItem uid dto sio newId now d)))"
  using assms
  by (auto simp: createItem_def reserved_consistent_def row_consistent_def Let_def
        split: option.splits)

lemma deleteItem_consistent:
  assumes "reserved_consistent d"
  shows "reserved_consistent (snd (snd (deleteItem k uid sio d)))"
  using assms
  by (auto simp: deleteItem_def reserved_consistent_def list_all_iff split: option.splits)

text \<open>
  C3. If \<open>reservedBy\<close> is set exactly on the reserved items of the store, it is so
  after a reserve, unreserve, contribute or hype request, after creating or deleting an
  item, and after any sequence of requests; it is so on a store without items. Each of
  these operations writes the two fields together or neither.
\<close>

theorem reserved_by_iff_reserved:
  assumes "reserved_consistent d"
  shows "reserved_consistent (snd (snd (reserve_route req io d)))
       \<and> reserved_consistent (snd (snd (unreserve_route req io d)))
       \<and> reserved_consistent (snd (snd (contribution_route creq io newId now d)))
       \<and> reserved_consistent (snd (snd (hype_route req io d)))
       \<and> reserved_consistent (snd (snd (createItem uid dto sio newId now d)))
       \<and> reserved_consistent (snd (snd (deleteItem k uid sio d)))
       \<and> reserved_consistent (run io xs d)
       \<and> reserved_consistent (d\<lparr>items := []\<rparr>)"
proof -
  have "reserved_consistent (db_after io (Reserve req) d)"
    "reserved_consistent (db_after io (Unreserve req) d)"
    "reserved_consistent (db_after io (Contribute creq newId now) d)"
    "reserved_consistent (db_after io (Hype req) d)"
    using assms by (rule db_after_consistent)+
  then show ?thesis
    using assms createItem_consistent deleteItem_consistent run_consistent
    by (simp add: db_after_def reserved_consistent_def)
qed

theorem reserved_by_iff_reserved_witness:
  "reserved_consistent ex_db
   \<and> reserved_consistent (snd (snd (reserve_route (guest ''Kim'') ex_io ex_db)))
   \<and> map (\<lambda>i. (isReserved i, reservedBy i)) (items (snd (snd (reserve_route (guest ''Kim'') ex_io ex_db))))
       = [(True, Some ''Kim'')]
   \<and> reserved_consistent (snd (snd (contribution_route (guest_contribution ''Sam'' 50) ex_io ''c1'' 5 ex_db)))
   \<and> map (\<lambda>i. (isReserved i, reservedBy i))
        (items (snd (snd (contribution_route (guest_contribution ''Sam'' 50) ex_io ''c1'' 5 ex_db))))
       = [(True, Some ''Group contribution'')]"
proof -
  have h: "reserved_consistent ex_db"
    by (simp add: reserved_consistent_def row_consistent_def ex_defs)
  have a: "map (\<lambda>i. (isReserved i, reservedBy i)) (items (snd (snd (reserve_route (guest ''Kim'') ex_io ex_db))))
       = [(True, Some ''Kim'')]"
    by (simp add: ex_defs route_defs)
  have b: "map (\<lambda>i. (isReserved i, reservedBy i))
        (items (snd (snd (contribution_route (guest_contribution ''Sam'' 50) ex_io ''c1'' 5 ex_db))))
       = [(True, Some ''Group contribution'')]"
    by (simp add: ex_defs route_defs)
  show ?thesis
    using h a b
      reserved_by_iff_reserved [OF h, of "guest ''Kim''" ex_io "guest_contribution ''Sam'' 50" "''c1''" 5]
    by blast
qed

section \<open>The funding transition\<close>

lemma held_step:
  assumes "held d k" and "\<not> unreserves_as ''Group contribution'' x"
  shows "held (db_after io x d) k"
proof -
  obtain f where f: "items (db_after io x d) = map f (items d)"
    and i: "\<forall>i. item_id (f i) = item_id i"
    and g: "\<forall>i. group_held i \<longrightarrow> group_held (f i)"
    using step_rows[of io x d] assms(2) by blast
  have "findUnique_item k (map f (items d)) = map_option f (findUnique_item k (items d))"
    by (rule findUnique_item_map) (simp add: i)
  then show ?thesis using assms(1) g unfolding held_def f
    by (auto split: option.splits)
qed

lemma held_no_transition:
  assumes "held d k"
  shows "\<not> funding_transition io k x d"
proof -
  obtain a where a: "findUnique_item k (items d) = Some a" "isReserved a"
    using assms by (auto simp: held_def group_held_def split: option.splits)
  show ?thesis
    using a
    by (cases x; cases "findUnique_item k (items (db_after io x d))")
       (simp_all add: funding_transition_def)
qed

lemma transition_held:
  assumes "funding_transition io k x d"
  shows "held (db_after io x d) k"
proof -
  obtain f where f: "items (db_after io x d) = map f (items d)"
    and i: "\<forall>i. item_id (f i) = item_id i"
    and g: "\<forall>i. \<not> isReserved i \<and> isReserved (f i) \<and> (\<exists>r n t. x = Contribute r n t) \<longrightarrow> group_held (f i)"
    using step_rows[of io x d] by blast
  have m: "findUnique_item k (map f (items d)) = map_option f (findUnique_item k (items d))"
    by (rule findUnique_item_map) (simp add: i)
  from assms obtain r n t where x: "x = Contribute r n t"
    by (auto simp: funding_transition_def split: op.splits)
  from assms x obtain a b where ab: "findUnique_item k (items d) = Some a"
    "findUnique_item k (items (db_after io x d)) = Some b" "\<not> isReserved a" "isReserved b"
    by (auto simp: funding_transition_def split: option.splits)
  have "b = f a" using ab(1,2) m f by simp
  then have "group_held b" using g ab(3,4) x by blast
  then show ?thesis using ab(2) by (simp add: held_def)
qed

lemma held_no_transitions:
  assumes "held d k" and "\<forall>x \<in> set xs. \<not> unreserves_as ''Group contribution'' x"
  shows "funding_transitions io k xs d = 0"
  using assms
proof (induction xs arbitrary: d)
  case Nil
  then show ?case by simp
next
  case (Cons x xs)
  have "held (db_after io x d) k" using Cons.prems by (intro held_step) auto
  then have "funding_transitions io k xs (db_after io x d) = 0"
    using Cons.IH Cons.prems by simp
  then show ?case using held_no_transition[OF Cons.prems(1)] by simp
qed

lemma funding_at_most_once:
  assumes "\<forall>x \<in> set xs. \<not> unreserves_as ''Group contribution'' x"
  shows "funding_transitions io k xs d \<le> 1"
  using assms
proof (induction xs arbitrary: d)
  case Nil
  then show ?case by simp
next
  case (Cons x xs)
  show ?case
  proof (cases "funding_transition io k x d")
    case True
    then have "held (db_after io x d) k" by (rule transition_held)
    then have "funding_transitions io k xs (db_after io x d) = 0"
      using Cons.prems by (intro held_no_transitions) auto
    then show ?thesis using True by simp
  next
    case False
    then show ?thesis using Cons.IH[of "db_after io x d"] Cons.prems by simp
  qed
qed

text \<open>
  C2, as the code has it. A successful contribution (status 200) appends exactly one
  contribution record for the item, with the amount as the decimal column stores it
  (rounded to 30 decimal places), and writes the old \<open>collectedAmount\<close> plus the amount,
  rounded likewise, to the item: the total grows by exactly the amount whenever the
  amount and the old total have at most 30 decimal places, with no clamping at the
  price. The item, unreserved before the call, is reserved afterwards exactly when the
  price is set and, as JavaScript numbers, the new total is at least the price; it is
  then reserved by \<open>Group contribution\<close>, and this is so whenever the new total is at
  least the price. No other item changes. In any sequence of reserve, unreserve,
  contribute and hype requests in which no unreserve is made under the identity
  \<open>Group contribution\<close>, the funding transition of an item happens at most once.
\<close>

theorem contribution_effect_and_single_funding:
  "(status (fst (contribution_route req io newId now d)) = 200 \<longrightarrow>
      (\<exists>it it' c.
          findUnique_item (b_itemId (c_body req)) (items d) = Some it \<and> \<not> isReserved it
        \<and> contributions (snd (snd (contribution_route req io newId now d))) = contributions d @ [c]
        \<and> c_itemId c = b_itemId (c_body req) \<and> amount c = round30 (b_amount (c_body req))
        \<and> findUnique_item (b_itemId (c_body req)) (items (snd (snd (contribution_route req io newId now d))))
            = Some it'
        \<and> collectedAmount it' = round30 (collectedAmount it + b_amount (c_body req))
        \<and> (round30 (b_amount (c_body req)) = b_amount (c_body req)
             \<and> round30 (collectedAmount it) = collectedAmount it \<longrightarrow>
              amount c = b_amount (c_body req)
            \<and> collectedAmount it' = collectedAmount it + b_amount (c_body req))
        \<and> price it' = price it
        \<and> (isReserved it' \<longleftrightarrow>
              (\<exists>p. price it = Some p \<and> to_double p \<le> to_double (collectedAmount it')))
        \<and> ((\<exists>p. price it = Some p \<and> p \<le> collectedAmount it') \<longrightarrow>
              isReserved it' \<and> reservedBy it' = Some ''Group contribution'')
        \<and> (isReserved it' \<longrightarrow> reservedBy it' = Some ''Group contribution'')
        \<and> (\<not> isReserved it' \<longrightarrow> reservedBy it' = reservedBy it)
        \<and> (\<forall>k'. k' \<noteq> b_itemId (c_body req) \<longrightarrow>
              findUnique_item k' (items (snd (snd (contribution_route req io newId now d))))
                = findUnique_item k' (items d))))
   \<and> ((\<forall>x \<in> set xs. \<not> unreserves_as ''Group contribution'' x) \<longrightarrow>
        funding_transitions io k xs d \<le> 1)"
proof (intro conjI impI)
  assume ok: "status (fst (contribution_route req io newId now d)) = 200"
  let ?k = "b_itemId (c_body req)"
  let ?a = "b_amount (c_body req)"
  let ?d' = "snd (snd (contribution_route req io newId now d))"
  from contribution_route_accepted[OF ok]
  obtain it c cc where it: "findUnique_item ?k (items d) = Some it" "\<not> isReserved it"
    and c: "c_itemId c = ?k" "amount c = round30 ?a"
    and cc: "cc = round30 (collectedAmount it + ?a)"
    and d': "?d' = d\<lparr>contributions := contributions d @ [c],
           items := map (\<lambda>j. if item_id j = ?k
                            then (if funded (it\<lparr>collectedAmount := cc\<rparr>)
                                  then j\<lparr>collectedAmount := round30 (collectedAmount j + ?a),
                                         isReserved := True, reservedBy := Some ''Group contribution''\<rparr>
                                  else j\<lparr>collectedAmount := round30 (collectedAmount j + ?a)\<rparr>)
                            else j) (items d)\<rparr>"
    by blast
  let ?upd = "\<lambda>j::item. if funded (it\<lparr>collectedAmount := cc\<rparr>)
                 then j\<lparr>collectedAmount := round30 (collectedAmount j + ?a),
                        isReserved := True, reservedBy := Some ''Group contribution''\<rparr>
                 else j\<lparr>collectedAmount := round30 (collectedAmount j + ?a)\<rparr>"
  define it' where "it' = ?upd it"
  have g: "findUnique_item ?k (items ?d') = Some it'"
    unfolding d' it'_def using findUnique_item_update_key[OF it(1), of ?upd] by simp
  have o: "\<And>k'. k' \<noteq> ?k \<Longrightarrow> findUnique_item k' (items ?d') = findUnique_item k' (items d)"
    unfolding d' using findUnique_item_update_other[of _ ?k ?upd "items d"] by simp
  then have o': "\<forall>k'. k' \<noteq> ?k \<longrightarrow> findUnique_item k' (items ?d') = findUnique_item k' (items d)"
    by blast
  have fu: "funded (it\<lparr>collectedAmount := cc\<rparr>)
            = (\<exists>p. price it = Some p \<and> to_double p \<le> to_double cc)"
    by (auto simp: funded_def split: option.splits)
  have col: "collectedAmount it' = cc" using cc by (simp add: it'_def)
  have res: "isReserved it' = funded (it\<lparr>collectedAmount := cc\<rparr>)"
    using it(2) by (simp add: it'_def)
  have rb: "isReserved it' \<longrightarrow> reservedBy it' = Some ''Group contribution''"
    "\<not> isReserved it' \<longrightarrow> reservedBy it' = reservedBy it"
    using it(2) by (simp_all add: it'_def)
  have p2: "price it' = price it" by (simp add: it'_def)
  have mono: "\<And>p. p \<le> cc \<Longrightarrow> to_double p \<le> to_double cc" by (rule to_double_mono)
  have ex: "round30 ?a = ?a \<and> round30 (collectedAmount it) = collectedAmount it \<longrightarrow>
              amount c = ?a \<and> collectedAmount it' = collectedAmount it + ?a"
    using c(2) col cc round30_add_exact[of "collectedAmount it" ?a] by simp
  have cs: "contributions ?d' = contributions d @ [c]" unfolding d' by simp
  have p1: "collectedAmount it' = round30 (collectedAmount it + ?a)" using col cc by simp
  have p3: "isReserved it' \<longleftrightarrow>
              (\<exists>p. price it = Some p \<and> to_double p \<le> to_double (collectedAmount it'))"
    using col res fu by simp
  have p4: "(\<exists>p. price it = Some p \<and> p \<le> collectedAmount it') \<longrightarrow>
              isReserved it' \<and> reservedBy it' = Some ''Group contribution''"
    using col res fu mono rb(1) by auto
  show "\<exists>it it' c.
          findUnique_item ?k (items d) = Some it \<and> \<not> isReserved it
        \<and> contributions ?d' = contributions d @ [c]
        \<and> c_itemId c = ?k \<and> amount c = round30 ?a
        \<and> findUnique_item ?k (items ?d') = Some it'
        \<and> collectedAmount it' = round30 (collectedAmount it + ?a)
        \<and> (round30 ?a = ?a \<and> round30 (collectedAmount it) = collectedAmount it \<longrightarrow>
              amount c = ?a \<and> collectedAmount it' = collectedAmount it + ?a)
        \<and> price it' = price it
        \<and> (isReserved it' \<longleftrightarrow>
              (\<exists>p. price it = Some p \<and> to_double p \<le> to_double (collectedAmount it')))
        \<and> ((\<exists>p. price it = Some p \<and> p \<le> collectedAmount it') \<longrightarrow>
              isReserved it' \<and> reservedBy it' = Some ''Group contribution'')
        \<and> (isReserved it' \<longrightarrow> reservedBy it' = Some ''Group contribution'')
        \<and> (\<not> isReserved it' \<longrightarrow> reservedBy it' = reservedBy it)
        \<and> (\<forall>k'. k' \<noteq> ?k \<longrightarrow> findUnique_item k' (items ?d') = findUnique_item k' (items d))"
    by (intro exI[of _ it] exI[of _ it'] exI[of _ c] conjI)
       (fact it c g cs p1 ex p2 p3 p4 rb o')+
next
  assume "\<forall>x \<in> set xs. \<not> unreserves_as ''Group contribution'' x"
  then show "funding_transitions io k xs d \<le> 1" by (rule funding_at_most_once)
qed

lemmas trace_defs = ex_trace_def ex_refunded_trace_def funding_transition_def db_after_def

theorem contribution_effect_and_single_funding_witness:
  "status (fst (contribution_route (guest_contribution ''Sam'' 50) ex_io ''c1'' 5 ex_db)) = 200
   \<and> (\<exists>it'. findUnique_item ex_id
               (items (snd (snd (contribution_route (guest_contribution ''Sam'' 50) ex_io ''c1'' 5 ex_db))))
             = Some it'
           \<and> collectedAmount it' = 50 \<and> isReserved it' \<and> reservedBy it' = Some ''Group contribution'')
   \<and> list_all (\<lambda>x. \<not> unreserves_as ''Group contribution'' x) ex_trace
   \<and> funding_transitions ex_io ex_id ex_trace ex_db \<le> 1"
proof -
  let ?req = "guest_contribution ''Sam'' 50"
  let ?d' = "snd (snd (contribution_route ?req ex_io ''c1'' 5 ex_db))"
  note inst = contribution_effect_and_single_funding [of ?req ex_io "''c1''" 5 ex_db ex_trace ex_id]
  have ok: "status (fst (contribution_route ?req ex_io ''c1'' 5 ex_db)) = 200"
    by (simp add: ex_defs route_defs)
  have tr: "\<forall>x \<in> set ex_trace. \<not> unreserves_as ''Group contribution'' x"
    by (simp add: ex_trace_def ex_defs)
  have k: "b_itemId (c_body ?req) = ex_id" "b_amount (c_body ?req) = 50"
    by (simp_all add: ex_defs)
  have e: "findUnique_item ex_id (items ex_db) = Some ex_item"
    by (simp add: ex_defs route_defs)
  from inst ok obtain it it' where
    a: "findUnique_item (b_itemId (c_body ?req)) (items ex_db) = Some it"
    and b: "findUnique_item (b_itemId (c_body ?req)) (items ?d') = Some it'"
    and c: "collectedAmount it' = round30 (collectedAmount it + b_amount (c_body ?req))"
    and f: "(\<exists>p. price it = Some p \<and> p \<le> collectedAmount it') \<longrightarrow>
              isReserved it' \<and> reservedBy it' = Some ''Group contribution''"
    by blast
  have i: "it = ex_item" using a e k by simp
  have v: "collectedAmount it' = 50" using c i k by (simp add: ex_item_def round30_numeral)
  moreover have "isReserved it' \<and> reservedBy it' = Some ''Group contribution''"
    using f i v by (simp add: ex_item_def)
  ultimately show ?thesis using ok tr inst b k by (auto simp: list_all_iff)
qed

text \<open>
  The funding test at work on rounded numbers: a total of 49.99999999999999999 funds an
  item priced 50, an amount of \<open>1e-31\<close> is accepted and recorded as 0, and an amount of
  \<open>1e35\<close> is refused by the store, the transaction leaving nothing behind.
\<close>

lemma contribution_rounding_examples:
  "map (\<lambda>i. (collectedAmount i, isReserved i, reservedBy i)) (items (run ex_io ex_rounding_trace ex_db))
     = [(4999999999999999999 / 10 ^ 17, True, Some ''Group contribution'')]"
  "status (fst (contribution_route (guest_contribution ''Sam'' (1 / 10 ^ 31)) ex_io ''c1'' 5 ex_db)) = 200"
  "map amount (contributions (snd (snd
      (contribution_route (guest_contribution ''Sam'' (1 / 10 ^ 31)) ex_io ''c1'' 5 ex_db)))) = [0]"
  "contribution_route (guest_contribution ''Sam'' (10 ^ 35)) ex_io ''c1'' 5 ex_db
     = (\<lparr>status = 400, json = ErrorJson NumericOverflow\<rparr>, [], ex_db)"
  by code_simp+

text \<open>
  A guest who unreserves under the nickname \<open>Group contribution\<close> releases a funded
  item; the next contribution funds it again: two funding transitions of one item.
\<close>

theorem funding_transition_twice:
  "funding_transitions ex_io ex_id ex_refunded_trace ex_db = 2"
  by (simp add: trace_defs ex_defs route_defs)

section \<open>The owner's view\<close>

lemma include_contributions_item:
  "item.truncate (include_contributions d i) = i" "item_id (include_contributions d i) = item_id i"
  by (simp_all add: include_contributions_def item.defs)

lemma spoiler_protect_hidden:
  "isReserved (spoiler_protect iv) = False" "reservedBy (spoiler_protect iv) = None"
  "collectedAmount (spoiler_protect iv) = 0" "v_contributions (spoiler_protect iv) = []"
  "item_id (spoiler_protect iv) = item_id iv"
  by (simp_all add: spoiler_protect_def)

lemma wishlist_items_ids:
  "set (map item_id (wishlist_items d wid)) = item_id ` {i \<in> set (items d). wishlistId i = wid}"
  by (auto simp: wishlist_items_def include_contributions_item)

lemma wishlist_items_rows:
  "map item.truncate (wishlist_items d wid)
   = rev (sort_key createdAt (filter (\<lambda>i. wishlistId i = wid) (items d)))"
  by (simp add: wishlist_items_def comp_def include_contributions_item map_idI)

lemma findUnique_wishlist_Some:
  "findUnique_wishlist k tbl = Some w \<Longrightarrow> w \<in> set tbl \<and> wl_id w = k"
  unfolding findUnique_wishlist_def by (auto simp: find_Some_iff)

text \<open>
  C7. Whenever the read of a wishlist returns it, the view lists the items of the
  wishlist. If the requester is the owner (who always gets a view), every item of the
  view has \<open>isReserved = False\<close>, \<open>reservedBy = None\<close>, \<open>collectedAmount = 0\<close> and no
  contributions, whatever is stored; for any other requester the items are the stored
  rows with their contributions, unchanged.
\<close>

theorem owner_view_is_spoiler_free:
  "(get_wishlist u wid d = Inr v \<longrightarrow>
        isOwner v = (map_option user_id u = Some (ownerId v))
      \<and> map item_id (v_items v) = map item_id (wishlist_items d wid)
      \<and> set (map item_id (v_items v)) = item_id ` {i \<in> set (items d). wishlistId i = wid}
      \<and> (isOwner v \<longrightarrow>
            list_all (\<lambda>iv. isReserved iv = False \<and> reservedBy iv = None
                          \<and> collectedAmount iv = 0 \<and> v_contributions iv = []) (v_items v))
      \<and> (\<not> isOwner v \<longrightarrow>
            v_items v = wishlist_items d wid
          \<and> map item.truncate (v_items v)
              = rev (sort_key createdAt (filter (\<lambda>i. wishlistId i = wid) (items d)))))
   \<and> (findUnique_wishlist wid (wishlists d) = Some wl \<and> map_option user_id u = Some (ownerId wl) \<longrightarrow>
        (\<exists>v'. get_wishlist u wid d = Inr v' \<and> isOwner v'))"
proof (intro conjI impI)
  assume g: "get_wishlist u wid d = Inr v"
  then obtain wl' where w: "findUnique_wishlist wid (wishlists d) = Some wl'"
    by (auto simp: get_wishlist_def split: option.splits)
  have k: "wl_id wl' = wid" using findUnique_wishlist_Some[OF w] by simp
  let ?o = "map_option user_id u = Some (ownerId wl')"
  have v: "v = wishlist.extend wl'
              \<lparr>v_items = (if ?o then map spoiler_protect (wishlist_items d wid) else wishlist_items d wid),
               isOwner = ?o\<rparr>"
    using g w k by (auto simp: get_wishlist_def Let_def split: if_splits simp del: map_option_eq_Some)
  have oid: "ownerId v = ownerId wl'" unfolding v by (simp add: wishlist.defs)
  have io: "isOwner v = ?o" unfolding v by (simp add: wishlist.defs)
  have its: "v_items v = (if ?o then map spoiler_protect (wishlist_items d wid) else wishlist_items d wid)"
    unfolding v by (simp add: wishlist.defs)
  show "isOwner v = (map_option user_id u = Some (ownerId v))" using io oid by simp
  show ids: "map item_id (v_items v) = map item_id (wishlist_items d wid)"
    using its by (simp add: comp_def spoiler_protect_hidden)
  show "set (map item_id (v_items v)) = item_id ` {i \<in> set (items d). wishlistId i = wid}"
    unfolding ids by (rule wishlist_items_ids)
  {
    assume "isOwner v"
    then show "list_all (\<lambda>iv. isReserved iv = False \<and> reservedBy iv = None
                          \<and> collectedAmount iv = 0 \<and> v_contributions iv = []) (v_items v)"
      using io its by (simp add: list_all_iff spoiler_protect_hidden del: map_option_eq_Some)
  }
  {
    assume "\<not> isOwner v"
    then show n: "v_items v = wishlist_items d wid" using io its
      by (simp del: map_option_eq_Some)
    show "map item.truncate (v_items v)
              = rev (sort_key createdAt (filter (\<lambda>i. wishlistId i = wid) (items d)))"
      unfolding n by (rule wishlist_items_rows)
  }
next
  assume "findUnique_wishlist wid (wishlists d) = Some wl \<and> map_option user_id u = Some (ownerId wl)"
  then show "\<exists>v'. get_wishlist u wid d = Inr v' \<and> isOwner v'"
    by (simp add: get_wishlist_def wishlist.defs del: map_option_eq_Some)
qed

lemma ex_db_funded_eval:
  "ex_db_funded =
     \<lparr>wishlists = [ex_wishlist],
      items = [ex_item\<lparr>isReserved := True, reservedBy := Some ''Group contribution'', collectedAmount := 50\<rparr>],
      contributions =
        [\<lparr>contrib_id = ''c1'', c_itemId = ex_id, c_userId = None, contributorName = ''Sam'',
          amount = 30, message = None, c_createdAt = 5\<rparr>,
         \<lparr>contrib_id = ''c2'', c_itemId = ex_id, c_userId = None, contributorName = ''Lee'',
          amount = 20, message = None, c_createdAt = 6\<rparr>]\<rparr>"
  by (simp add: ex_db_funded_def db_after_def ex_defs route_defs)

theorem owner_view_is_spoiler_free_witness:
  "(\<exists>v. get_wishlist (Some ex_owner) ''w1'' ex_db_funded = Inr v \<and> isOwner v
        \<and> map (\<lambda>iv. (isReserved iv, reservedBy iv, collectedAmount iv, v_contributions iv)) (v_items v)
            = [(False, None, 0, [])])
   \<and> (\<exists>v. get_wishlist None ''w1'' ex_db_funded = Inr v \<and> \<not> isOwner v
        \<and> map (\<lambda>iv. (isReserved iv, reservedBy iv, collectedAmount iv, map cv_contributorName (v_contributions iv)))
             (v_items v)
            = [(True, Some ''Group contribution'', 50, [''Sam'', ''Lee''])])"
proof -
  let ?vo = "wishlist.extend ex_wishlist
              \<lparr>v_items = map spoiler_protect (wishlist_items ex_db_funded ''w1''), isOwner = True\<rparr>"
  let ?vg = "wishlist.extend ex_wishlist
              \<lparr>v_items = wishlist_items ex_db_funded ''w1'', isOwner = False\<rparr>"
  have o: "get_wishlist (Some ex_owner) ''w1'' ex_db_funded = Inr ?vo"
    by (simp add: get_wishlist_def ex_db_funded_eval findUnique_wishlist_def ex_wishlist_def ex_owner_def)
  have g: "get_wishlist None ''w1'' ex_db_funded = Inr ?vg"
    by (simp add: get_wishlist_def ex_db_funded_eval findUnique_wishlist_def ex_wishlist_def)
  have w: "wishlist_items ex_db_funded ''w1'' =
     [item.extend (ex_item\<lparr>isReserved := True, reservedBy := Some ''Group contribution'', collectedAmount := 50\<rparr>)
        \<lparr>v_contributions =
           [\<lparr>cv_id = ''c1'', cv_amount = 30, cv_contributorName = ''Sam'', cv_message = None, cv_createdAt = 5\<rparr>,
            \<lparr>cv_id = ''c2'', cv_amount = 20, cv_contributorName = ''Lee'', cv_message = None, cv_createdAt = 6\<rparr>]\<rparr>]"
    by (simp add: wishlist_items_def include_contributions_def select_contribution_def ex_db_funded_eval
          ex_item_def ex_id_def)
  have io: "isOwner ?vo" "\<not> isOwner ?vg" by (simp_all add: wishlist.defs)
  from owner_view_is_spoiler_free [of "Some ex_owner" "''w1''" ex_db_funded ?vo] o io
  have a: "list_all (\<lambda>iv. isReserved iv = False \<and> reservedBy iv = None
                          \<and> collectedAmount iv = 0 \<and> v_contributions iv = []) (v_items ?vo)"
    by blast
  have l: "length (v_items ?vo) = 1" by (simp add: wishlist.defs w)
  have r1: "map (\<lambda>iv. (isReserved iv, reservedBy iv, collectedAmount iv, v_contributions iv)) (v_items ?vo)
            = [(False, None, 0, [])]"
    using a l by (cases "v_items ?vo") (auto simp: list_all_iff)
  from owner_view_is_spoiler_free [of None "''w1''" ex_db_funded ?vg] g io
  have "v_items ?vg = wishlist_items ex_db_funded ''w1''" by blast
  then have r2: "map (\<lambda>iv. (isReserved iv, reservedBy iv, collectedAmount iv, map cv_contributorName (v_contributions iv)))
             (v_items ?vg)
            = [(True, Some ''Group contribution'', 50, [''Sam'', ''Lee''])]"
    by (simp add: w item.defs ex_item_def)
  show ?thesis
    using o g io r1 r2 by (intro conjI exI[of _ ?vo] exI[of _ ?vg])
qed

section \<open>Who receives an event\<close>

text \<open>
  C8, evaluated. Socket \<open>B\<close> has joined only the room of wishlist \<open>w2\<close>. A reservation
  on an item of wishlist \<open>w1\<close> is emitted with \<open>io.emit\<close> and reaches \<open>A\<close> and \<open>B\<close>;
  a contribution to the same item is emitted with \<open>io.to(room)\<close> and reaches \<open>A\<close> only.
\<close>

theorem reserve_event_reaches_other_wishlist:
  "room_members ex_io ''wishlist:w1'' = [''A'']
   \<and> socket_rooms ex_io ''B'' = [''B'', ''wishlist:w2'']
   \<and> fst (snd (reserve_route (guest ''Kim'') ex_io ex_db))
       = [([''A'', ''B''], ''wishlist:w1'', ITEM_RESERVED ''w1'' ex_id True (Some ''Kim''))]
   \<and> fst (snd (contribution_route (guest_contribution ''Sam'' 30) ex_io ''c1'' 5 ex_db))
       = [([''A''], ''wishlist:w1'', CONTRIBUTION_ADDED ''w1'' ex_id 30 False)]"
  by (simp add: ex_defs route_defs socket_rooms_def)

section \<open>Presence\<close>

lemma room_members_set:
  "set (room_members s r) = {k. (k, r) \<in> set (memberships s)}"
  by (force simp: room_members_def rooms_get_def Let_def image_iff filter_empty_conv)

lemma room_members_distinct: "distinct (room_members s r)"
  by (auto simp: room_members_def rooms_get_def Let_def)

lemma room_members_length: "length (room_members s r) = card (set (room_members s r))"
  using room_members_distinct by (simp add: distinct_card)

lemma rooms_get_count:
  "(case rooms_get s r of None \<Rightarrow> 0 | Some m \<Rightarrow> int (length m)) = int (length (room_members s r))"
  by (auto simp: room_members_def rooms_get_def Let_def)

lemma rooms_get_member:
  assumes "k \<in> set (room_members s r)"
  shows "rooms_get s r = Some (room_members s r)"
  using assms by (auto simp: room_members_def rooms_get_def Let_def split: if_splits)

lemma join_members:
  "set (room_members (socket_join k r s) r) = insert k (set (room_members s r))"
  by (auto simp: room_members_set socket_join_def)

lemma leave_members:
  "set (room_members (socket_leave k r s) r) = set (room_members s r) - {k}"
  by (auto simp: room_members_set socket_leave_def)

lemma socket_rooms_member:
  "r \<in> set (socket_rooms s k) \<longleftrightarrow> k \<in> set (room_members s r)"
  by (auto simp: socket_rooms_def room_members_set image_iff)

lemma replace_first_prefix:
  assumes "startsWith r p" and "p \<noteq> []"
  shows "replace_first r p rep = rep @ drop (length p) r"
  using assms by (cases r) (auto simp: startsWith_def)

lemma join_wishlist_count:
  "join_wishlist k w s =
     ([(room_members (socket_join k (''wishlist:'' @ w) s) (''wishlist:'' @ w), ''viewers:'' @ w,
        ViewersPayload (int (card (insert k (set (room_members s (''wishlist:'' @ w)))))))],
      socket_join k (''wishlist:'' @ w) s)"
proof -
  let ?r = "''wishlist:'' @ w"
  let ?s' = "socket_join k ?r s"
  have m: "k \<in> set (room_members ?s' ?r)" by (simp add: join_members)
  have "rooms_get ?s' ?r = Some (room_members ?s' ?r)" using m by (rule rooms_get_member)
  moreover have "int (length (room_members ?s' ?r)) = int (card (insert k (set (room_members s ?r))))"
    by (simp add: room_members_length join_members)
  ultimately show ?thesis by (simp add: join_wishlist_def emit_to_def Let_def)
qed

lemma leave_wishlist_count:
  "leave_wishlist k w s =
     ([(room_members (socket_leave k (''wishlist:'' @ w) s) (''wishlist:'' @ w), ''viewers:'' @ w,
        ViewersPayload (int (card (set (room_members s (''wishlist:'' @ w)) - {k}))))],
      socket_leave k (''wishlist:'' @ w) s)"
proof -
  let ?r = "''wishlist:'' @ w"
  let ?s' = "socket_leave k ?r s"
  have "(case rooms_get ?s' ?r of None \<Rightarrow> 0 | Some m \<Rightarrow> int (length m))
        = int (card (set (room_members s ?r) - {k}))"
    by (simp add: rooms_get_count room_members_length leave_members)
  then show ?thesis by (simp add: leave_wishlist_def emit_to_def Let_def)
qed

lemma disconnecting_count:
  "disconnecting k s =
     map (\<lambda>r. (room_members s r, ''viewers:'' @ drop 9 r,
               ViewersPayload (int (card (set (room_members s r) - {k})))))
       (filter (\<lambda>r. startsWith r ''wishlist:'') (socket_rooms s k))"
proof -
  have one: "\<And>r. r \<in> set (socket_rooms s k) \<Longrightarrow> startsWith r ''wishlist:'' \<Longrightarrow>
      (let wishlistId' = replace_first r ''wishlist:'' [];
           roomSet = rooms_get s r;
           count = (case roomSet of None \<Rightarrow> 0 | Some m \<Rightarrow> int (length m) - 1)
       in [emit_to s r (''viewers:'' @ wishlistId') (ViewersPayload count)])
      = [(room_members s r, ''viewers:'' @ drop 9 r,
          ViewersPayload (int (card (set (room_members s r) - {k}))))]"
  proof -
    fix r assume r: "r \<in> set (socket_rooms s k)" and p: "startsWith r ''wishlist:''"
    have m: "k \<in> set (room_members s r)" using r by (simp add: socket_rooms_member)
    have g: "rooms_get s r = Some (room_members s r)" using m by (rule rooms_get_member)
    have "card (set (room_members s r)) \<ge> 1"
      using m by (metis One_nat_def Suc_leI card_gt_0_iff empty_iff List.finite_set)
    then have c: "int (length (room_members s r)) - 1 = int (card (set (room_members s r) - {k}))"
      using m by (simp add: room_members_length of_nat_diff)
    have l: "length ''wishlist:'' = (9::nat)" by simp
    have ne: "''wishlist:'' \<noteq> []" by simp
    have w: "replace_first r ''wishlist:'' [] = drop 9 r"
      using replace_first_prefix[OF p ne, of "[]", unfolded l] by simp
    show "(let wishlistId' = replace_first r ''wishlist:'' [];
           roomSet = rooms_get s r;
           count = (case roomSet of None \<Rightarrow> 0 | Some m \<Rightarrow> int (length m) - 1)
       in [emit_to s r (''viewers:'' @ wishlistId') (ViewersPayload count)])
      = [(room_members s r, ''viewers:'' @ drop 9 r,
          ViewersPayload (int (card (set (room_members s r) - {k}))))]"
      using g c w by (simp add: emit_to_def Let_def)
  qed
  have "\<And>rs. set rs \<subseteq> set (socket_rooms s k) \<Longrightarrow>
      concat (map (\<lambda>room.
        if startsWith room ''wishlist:''
        then let wishlistId' = replace_first room ''wishlist:'' [];
                 roomSet = rooms_get s room;
                 count = (case roomSet of None \<Rightarrow> 0 | Some m \<Rightarrow> int (length m) - 1)
             in [emit_to s room (''viewers:'' @ wishlistId') (ViewersPayload count)]
        else []) rs)
      = map (\<lambda>r. (room_members s r, ''viewers:'' @ drop 9 r,
               ViewersPayload (int (card (set (room_members s r) - {k})))))
          (filter (\<lambda>r. startsWith r ''wishlist:'') rs)"
  proof -
    fix rs show "set rs \<subseteq> set (socket_rooms s k) \<Longrightarrow>
      concat (map (\<lambda>room.
        if startsWith room ''wishlist:''
        then let wishlistId' = replace_first room ''wishlist:'' [];
                 roomSet = rooms_get s room;
                 count = (case roomSet of None \<Rightarrow> 0 | Some m \<Rightarrow> int (length m) - 1)
             in [emit_to s room (''viewers:'' @ wishlistId') (ViewersPayload count)]
        else []) rs)
      = map (\<lambda>r. (room_members s r, ''viewers:'' @ drop 9 r,
               ViewersPayload (int (card (set (room_members s r) - {k})))))
          (filter (\<lambda>r. startsWith r ''wishlist:'') rs)"
    proof (induction rs)
      case Nil
      then show ?case by simp
    next
      case (Cons a rs)
      then show ?case using one[of a] by (cases "startsWith a ''wishlist:''") simp_all
    qed
  qed
  from this[of "socket_rooms s k"] show ?thesis by (simp add: disconnecting_def)
qed

lemma viewer_counts_append: "viewer_counts (a @ b) = viewer_counts a @ viewer_counts b"
  by (induction a rule: viewer_counts.induct) simp_all

lemma presence_step_nonneg:
  "\<forall>c \<in> set (viewer_counts (fst (presence_step x s))). 0 \<le> c"
proof (cases x)
  case (Connect k)
  then show ?thesis by simp
next
  case (Join k w)
  then show ?thesis by (simp add: join_wishlist_count)
next
  case (Leave k w)
  then show ?thesis by (simp add: leave_wishlist_count)
next
  case (Disconnect k)
  have "\<And>rs. \<forall>c \<in> set (viewer_counts (map (\<lambda>r. (room_members s r, ''viewers:'' @ drop 9 r,
               ViewersPayload (int (card (set (room_members s r) - {k}))))) rs)). 0 \<le> c"
  proof -
    fix rs show "\<forall>c \<in> set (viewer_counts (map (\<lambda>r. (room_members s r, ''viewers:'' @ drop 9 r,
               ViewersPayload (int (card (set (room_members s r) - {k}))))) rs)). 0 \<le> c"
      by (induction rs) simp_all
  qed
  then show ?thesis using Disconnect by (simp add: disconnect_def disconnecting_count)
qed

lemma presence_run_nonneg:
  "\<forall>c \<in> set (viewer_counts (fst (presence_run xs s))). 0 \<le> c"
proof (induction xs arbitrary: s)
  case Nil
  then show ?case by simp
next
  case (Cons x xs)
  obtain out s' where st: "presence_step x s = (out, s')" by (cases "presence_step x s") auto
  obtain out' s'' where rn: "presence_run xs s' = (out', s'')" by (cases "presence_run xs s'") auto
  have "\<forall>c \<in> set (viewer_counts out). 0 \<le> c" using presence_step_nonneg[of x s] st by simp
  moreover have "\<forall>c \<in> set (viewer_counts out'). 0 \<le> c" using Cons.IH[of s'] rn by simp
  ultimately show ?case using st rn by (auto simp: viewer_counts_append)
qed

lemmas presence_defs = ex_presence_def no_sockets_def connection_def socket_join_def socket_leave_def
  join_wishlist_def leave_wishlist_def disconnect_def disconnecting_def socket_rooms_def
  rooms_get_def room_members_def emit_to_def startsWith_def Let_def

text \<open>
  C9. Joining emits the size of the room after the socket is added, leaving emits the
  size after it is removed, and a disconnect emits, for each wishlist room the socket is
  in, the size of the room without the socket. No emitted count is negative, in any
  sequence of connections, joins, leaves and disconnects. A joins, B joins, A
  disconnects: the counts are 1, 2, 1.
\<close>

theorem presence_counts_follow_membership:
  "join_wishlist k w s =
     ([(room_members (socket_join k (''wishlist:'' @ w) s) (''wishlist:'' @ w), ''viewers:'' @ w,
        ViewersPayload (int (card (insert k (set (room_members s (''wishlist:'' @ w)))))))],
      socket_join k (''wishlist:'' @ w) s)
   \<and> set (room_members (socket_join k (''wishlist:'' @ w) s) (''wishlist:'' @ w))
       = insert k (set (room_members s (''wishlist:'' @ w)))
   \<and> leave_wishlist k w s =
     ([(room_members (socket_leave k (''wishlist:'' @ w) s) (''wishlist:'' @ w), ''viewers:'' @ w,
        ViewersPayload (int (card (set (room_members s (''wishlist:'' @ w)) - {k}))))],
      socket_leave k (''wishlist:'' @ w) s)
   \<and> set (room_members (socket_leave k (''wishlist:'' @ w) s) (''wishlist:'' @ w))
       = set (room_members s (''wishlist:'' @ w)) - {k}
   \<and> fst (disconnect k s) =
     map (\<lambda>r. (room_members s r, ''viewers:'' @ drop 9 r,
               ViewersPayload (int (card (set (room_members s r) - {k})))))
       (filter (\<lambda>r. startsWith r ''wishlist:'') (socket_rooms s k))
   \<and> (\<forall>r. r \<in> set (socket_rooms s k) \<longleftrightarrow> k \<in> set (room_members s r))
   \<and> (\<forall>c \<in> set (viewer_counts (fst (presence_run xs s))). 0 \<le> c)
   \<and> viewer_counts (fst (presence_run ex_presence no_sockets)) = [1, 2, 1]"
proof -
  have e: "viewer_counts (fst (presence_run ex_presence no_sockets)) = [1, 2, 1]"
    by (simp add: presence_defs)
  show ?thesis
    using join_wishlist_count[of k w s] leave_wishlist_count[of k w s] disconnecting_count[of k s]
      join_members[of k "''wishlist:'' @ w" s] leave_members[of k "''wishlist:'' @ w" s]
      socket_rooms_member[of _ s k] presence_run_nonneg[of xs s] e
    by (simp add: disconnect_def)
qed

theorem presence_counts_follow_membership_witness:
  "list_all (\<lambda>c. 0 \<le> c) (viewer_counts (fst (presence_run ex_presence no_sockets)))
   \<and> viewer_counts (fst (presence_run ex_presence no_sockets)) = [1, 2, 1]
   \<and> fst (join_wishlist ''B'' ''w1'' (snd (presence_run [Connect ''A'', Join ''A'' ''w1'', Connect ''B''] no_sockets)))
       = [([''A'', ''B''], ''viewers:w1'', ViewersPayload 2)]"
proof -
  have j: "fst (join_wishlist ''B'' ''w1'' (snd (presence_run [Connect ''A'', Join ''A'' ''w1'', Connect ''B''] no_sockets)))
       = [([''A'', ''B''], ''viewers:w1'', ViewersPayload 2)]"
    by (simp add: presence_defs)
  show ?thesis
    using j presence_counts_follow_membership [of "''A''" "''w1''" no_sockets ex_presence]
    by (simp add: list_all_iff)
qed

end
